theory Spec2Isabelle
  imports Main
begin

section \<open>Data structures for storing glyph vector data\<close>

text \<open>
  The enum class \<open>PointType\<close> and the structs \<open>VectorPoint\<close> and \<open>PathSegment\<close> of
  \<^verbatim>\<open>get_char.cpp\<close>. The coordinates are C \<open>long\<close> values that the program only
  copies and prints (no arithmetic is ever done on them), so they are integers here.
\<close>

datatype PointType = MOVE_TO | LINE_TO | CONIC_TO

record VectorPoint =
  x :: int
  y :: int

record PathSegment =
  type :: PointType
  to :: VectorPoint
  control :: VectorPoint

type_synonym Contour = "PathSegment list"

type_synonym GlyphPath = "Contour list"

section \<open>The decomposition callbacks\<close>

text \<open>
  Every callback receives the accumulator through the \<open>user\<close> pointer, mutates it in
  place and returns an \<open>int\<close>. The model passes the accumulator in and returns the
  status together with the updated accumulator. \<open>path->back()\<close> on an empty
  \<open>std::vector\<close> is undefined behaviour: that outcome is a value of its own, not a
  status.
\<close>

datatype outcome = Returned int GlyphPath | Undefined

definition MoveToFunc :: "VectorPoint \<Rightarrow> GlyphPath \<Rightarrow> outcome" where
  "MoveToFunc pt path =
     (let path1 = path @ [[]];
          path2 = butlast path1 @
                  [last path1 @ [\<lparr>type = MOVE_TO, to = \<lparr>x = x pt, y = y pt\<rparr>,
                                  control = \<lparr>x = 0, y = 0\<rparr>\<rparr>]]
      in Returned 0 path2)"

definition LineToFunc :: "VectorPoint \<Rightarrow> GlyphPath \<Rightarrow> outcome" where
  "LineToFunc pt path =
     (if path = [] then Undefined
      else Returned 0
             (butlast path @
              [last path @ [\<lparr>type = LINE_TO, to = \<lparr>x = x pt, y = y pt\<rparr>,
                             control = \<lparr>x = 0, y = 0\<rparr>\<rparr>]]))"

definition ConicToFunc :: "VectorPoint \<Rightarrow> VectorPoint \<Rightarrow> GlyphPath \<Rightarrow> outcome" where
  "ConicToFunc ctl pt path =
     (if path = [] then Undefined
      else Returned 0
             (butlast path @
              [last path @ [\<lparr>type = CONIC_TO, to = \<lparr>x = x pt, y = y pt\<rparr>,
                             control = \<lparr>x = x ctl, y = y ctl\<rparr>\<rparr>]]))"

definition CubicToFunc ::
  "VectorPoint \<Rightarrow> VectorPoint \<Rightarrow> VectorPoint \<Rightarrow> GlyphPath \<Rightarrow> outcome" where
  "CubicToFunc control1 control2 pt path = Returned 0 path"

section \<open>The outline walk of the font engine\<close>

text \<open>
  \<open>FT_Outline_Decompose\<close> belongs to the font engine, not to this program. What the
  program sees of it is a stream of events, each delivered to the callback that
  \<open>main\<close> registered for it in the \<open>FT_Outline_Funcs\<close> table, with the \<open>user\<close>
  pointer passed through unchanged; a callback status other than 0 ends the walk
  with that status.
\<close>

datatype event =
    EvMoveTo VectorPoint
  | EvLineTo VectorPoint
  | EvConicTo VectorPoint VectorPoint
  | EvCubicTo VectorPoint VectorPoint VectorPoint

fun invoke :: "event \<Rightarrow> GlyphPath \<Rightarrow> outcome" where
  "invoke (EvMoveTo pt) path = MoveToFunc pt path"
| "invoke (EvLineTo pt) path = LineToFunc pt path"
| "invoke (EvConicTo ctl pt) path = ConicToFunc ctl pt path"
| "invoke (EvCubicTo control1 control2 pt) path = CubicToFunc control1 control2 pt path"

fun Outline_Decompose :: "event list \<Rightarrow> GlyphPath \<Rightarrow> outcome" where
  "Outline_Decompose [] path = Returned 0 path"
| "Outline_Decompose (e # es) path =
     (case invoke e path of
        Undefined \<Rightarrow> Undefined
      | Returned status path' \<Rightarrow>
          if status \<noteq> 0 then Returned status path' else Outline_Decompose es path')"

text \<open>
  The same walk with the accumulator where the program keeps it: an object in memory,
  known to the engine and to the callbacks only by its address, the \<open>user\<close> pointer.
  A callback casts \<open>user\<close> back to a \<open>GlyphPath*\<close> and works on the object there;
  it reads and writes nothing else. A \<open>user\<close> pointer to no such object is undefined
  behaviour, as is \<open>back()\<close> on an empty vector.
\<close>

type_synonym address = nat

type_synonym memory = "address \<Rightarrow> GlyphPath option"

datatype memory_outcome = Done int memory | Stuck

definition through_user ::
  "(GlyphPath \<Rightarrow> outcome) \<Rightarrow> address \<Rightarrow> memory \<Rightarrow> memory_outcome" where
  "through_user callback user mem =
     (case mem user of
        None \<Rightarrow> Stuck
      | Some path \<Rightarrow>
          (case callback path of
             Undefined \<Rightarrow> Stuck
           | Returned status path' \<Rightarrow> Done status (mem(user \<mapsto> path'))))"

fun Outline_Decompose_at :: "event list \<Rightarrow> address \<Rightarrow> memory \<Rightarrow> memory_outcome" where
  "Outline_Decompose_at [] user mem = Done 0 mem"
| "Outline_Decompose_at (e # es) user mem =
     (case through_user (invoke e) user mem of
        Stuck \<Rightarrow> Stuck
      | Done status mem' \<Rightarrow>
          if status \<noteq> 0 then Done status mem' else Outline_Decompose_at es user mem')"

text \<open>
  The path that mirrors an event list, read off the events alone from the last one
  back: the segments of the events that come before the first moveTo, and the
  contours from the first moveTo on. A moveTo opens a contour with its MOVE_TO segment,
  followed by the segments gathered up to the next moveTo; a lineTo and a conicTo
  leave one segment each; a cubic leaves none.
\<close>

fun gather :: "event list \<Rightarrow> PathSegment list \<times> GlyphPath" where
  "gather [] = ([], [])"
| "gather (EvMoveTo pt # es) =
     ([], (\<lparr>type = MOVE_TO, to = pt, control = \<lparr>x = 0, y = 0\<rparr>\<rparr> # fst (gather es)) #
          snd (gather es))"
| "gather (EvLineTo pt # es) =
     (\<lparr>type = LINE_TO, to = pt, control = \<lparr>x = 0, y = 0\<rparr>\<rparr> # fst (gather es), snd (gather es))"
| "gather (EvConicTo ctl pt # es) =
     (\<lparr>type = CONIC_TO, to = pt, control = ctl\<rparr> # fst (gather es), snd (gather es))"
| "gather (EvCubicTo control1 control2 pt # es) = gather es"

definition contours_in_order :: "event list \<Rightarrow> GlyphPath" where
  "contours_in_order es = snd (gather es)"

text \<open>
  The protocol of the walk: every contour is opened by one moveTo, which comes before
  any of its edges. An event list obeys it exactly when it is empty or begins with a
  moveTo: the moveTo events then cut it into contours.
\<close>

fun respects_protocol :: "event list \<Rightarrow> bool" where
  "respects_protocol [] = True"
| "respects_protocol (EvMoveTo pt # es) = True"
| "respects_protocol (e # es) = False"

fun is_cubic :: "event \<Rightarrow> bool" where
  "is_cubic (EvCubicTo control1 control2 pt) = True"
| "is_cubic e = False"

text \<open>
  An outline given contour by contour: the starting point and the edges of each
  contour, with the events the engine emits for it.
\<close>

datatype edge = Line VectorPoint | Conic VectorPoint VectorPoint

type_synonym source_contour = "VectorPoint \<times> edge list"

fun edge_event :: "edge \<Rightarrow> event" where
  "edge_event (Line pt) = EvLineTo pt"
| "edge_event (Conic ctl pt) = EvConicTo ctl pt"

fun contour_events :: "source_contour \<Rightarrow> event list" where
  "contour_events (start, edges) = EvMoveTo start # map edge_event edges"

definition outline_events :: "source_contour list \<Rightarrow> event list" where
  "outline_events outline = concat (map contour_events outline)"

text \<open>The segment each event of a contour is expected to leave in the path.\<close>

definition zero_point :: VectorPoint where
  "zero_point = \<lparr>x = 0, y = 0\<rparr>"

definition move_segment :: "VectorPoint \<Rightarrow> PathSegment" where
  "move_segment pt = \<lparr>type = MOVE_TO, to = pt, control = zero_point\<rparr>"

fun edge_segment :: "edge \<Rightarrow> PathSegment" where
  "edge_segment (Line pt) = \<lparr>type = LINE_TO, to = pt, control = zero_point\<rparr>"
| "edge_segment (Conic ctl pt) = \<lparr>type = CONIC_TO, to = pt, control = ctl\<rparr>"

definition contour_segments :: "source_contour \<Rightarrow> Contour" where
  "contour_segments sc = move_segment (fst sc) # map edge_segment (snd sc)"

text \<open>The invariants of a path under construction.\<close>

definition starts_with_move :: "Contour \<Rightarrow> bool" where
  "starts_with_move c = (case c of [] \<Rightarrow> False | s # rest \<Rightarrow> type s = MOVE_TO)"

definition contours_open :: "GlyphPath \<Rightarrow> bool" where
  "contours_open path = list_all starts_with_move path"

definition control_unused :: "PathSegment \<Rightarrow> bool" where
  "control_unused s = (type s = CONIC_TO \<or> control s = zero_point)"

definition controls_zero :: "GlyphPath \<Rightarrow> bool" where
  "controls_zero path = list_all (list_all control_unused) path"

text \<open>What a callback hands back to the engine, when it hands back anything.\<close>

fun return_code :: "outcome \<Rightarrow> int option" where
  "return_code (Returned status path) = Some status"
| "return_code Undefined = None"

text \<open>A callback fails fast when it returns a status that stops the walk.\<close>

fun fails_fast :: "outcome \<Rightarrow> bool" where
  "fails_fast (Returned status path) = (status \<noteq> 0)"
| "fails_fast Undefined = False"

section \<open>Formatted output\<close>

text \<open>
  What the program uses of a \<open>std::ostream\<close>: the characters written so far, the
  field width (set by \<open>std::setw\<close>, reset to 0 by every formatted insertion) and the
  adjustment flag (set by \<open>std::right\<close>, sticky). The fill character is the space and
  numbers are written in decimal without grouping, as on the standard streams of a
  program that never changes these settings.
\<close>

datatype adjustfield = adjust_unset | adjust_left | adjust_right | adjust_internal

record ostream =
  buf :: string
  width :: nat
  adjust :: adjustfield

definition fill :: "nat \<Rightarrow> string" where
  "fill n = replicate n (CHR '' '')"

definition pad_text :: "adjustfield \<Rightarrow> nat \<Rightarrow> string \<Rightarrow> string" where
  "pad_text adj w s =
     (if adj = adjust_left then s @ fill (w - length s) else fill (w - length s) @ s)"

definition pad_number :: "adjustfield \<Rightarrow> nat \<Rightarrow> string \<Rightarrow> string \<Rightarrow> string" where
  "pad_number adj w sign digits =
     (let n = w - (length sign + length digits)
      in if adj = adjust_left then sign @ digits @ fill n
         else if adj = adjust_internal then sign @ fill n @ digits
         else fill n @ sign @ digits)"

definition digit_char :: "nat \<Rightarrow> char" where
  "digit_char d = ''0123456789'' ! d"

fun dec_digits :: "nat \<Rightarrow> string" where
  "dec_digits n =
     (if n < 10 then [digit_char n] else dec_digits (n div 10) @ [digit_char (n mod 10)])"

declare dec_digits.simps [simp del]

definition sign_of :: "int \<Rightarrow> string" where
  "sign_of v = (if v < 0 then ''-'' else [])"

text \<open>The operands of \<open><<\<close> that occur in the program, and \<open><<\<close> itself.\<close>

datatype item =
    Text string
  | Character char
  | LongValue int
  | IntValue int
  | SizeValue nat
  | SetW nat
  | AdjustRight
  | EndLine

fun put :: "ostream \<Rightarrow> item \<Rightarrow> ostream" where
  "put os (Text s) = os\<lparr>buf := buf os @ pad_text (adjust os) (width os) s, width := 0\<rparr>"
| "put os (Character c) =
     os\<lparr>buf := buf os @ pad_text (adjust os) (width os) [c], width := 0\<rparr>"
| "put os (LongValue v) =
     os\<lparr>buf := buf os @ pad_number (adjust os) (width os) (sign_of v) (dec_digits (nat \<bar>v\<bar>)),
        width := 0\<rparr>"
| "put os (IntValue v) =
     os\<lparr>buf := buf os @ pad_number (adjust os) (width os) (sign_of v) (dec_digits (nat \<bar>v\<bar>)),
        width := 0\<rparr>"
| "put os (SizeValue n) =
     os\<lparr>buf := buf os @ pad_number (adjust os) (width os) [] (dec_digits n), width := 0\<rparr>"
| "put os (SetW n) = os\<lparr>width := n\<rparr>"
| "put os AdjustRight = os\<lparr>adjust := adjust_right\<rparr>"
| "put os EndLine = os\<lparr>buf := buf os @ [CHR 0x0A]\<rparr>"

definition fresh_stream :: ostream where
  "fresh_stream = \<lparr>buf = [], width = 0, adjust = adjust_unset\<rparr>"

section \<open>Printing a path\<close>

definition print_segment :: "ostream \<Rightarrow> PathSegment \<Rightarrow> ostream" where
  "print_segment os segment =
     (case type segment of
        MOVE_TO \<Rightarrow>
          foldl put os
            [Text ''      MoveTo ('',
             AdjustRight, SetW 5, LongValue (x (to segment)), Text '', '',
             AdjustRight, SetW 5, LongValue (y (to segment)), Text ('')'' @ [CHR 0x0A])]
      | LINE_TO \<Rightarrow>
          foldl put os
            [Text ''      LineTo ('',
             AdjustRight, SetW 5, LongValue (x (to segment)), Text '', '',
             AdjustRight, SetW 5, LongValue (y (to segment)), Text ('')'' @ [CHR 0x0A])]
      | CONIC_TO \<Rightarrow>
          foldl put os
            [Text ''      QuadTo ('',
             AdjustRight, SetW 5, LongValue (x (control segment)), Text '', '',
             AdjustRight, SetW 5, LongValue (y (control segment)), Text '') ('',
             AdjustRight, SetW 5, LongValue (x (to segment)), Text '', '',
             AdjustRight, SetW 5, LongValue (y (to segment)), Text ('')'' @ [CHR 0x0A])])"

text \<open>
  The loop over \<open>i\<close> of \<open>PrintGlyphPath\<close>, entered at index \<open>i\<close>. The index is a
  \<open>size_t\<close> below the size of a vector, so \<open>i + 1\<close> does not wrap.
\<close>

function print_contours :: "nat \<Rightarrow> GlyphPath \<Rightarrow> ostream \<Rightarrow> ostream" where
  "print_contours i path os =
     (if i < length path then
        print_contours (i + 1) path
          (foldl print_segment
             (foldl put os [Text ''   Contour #'', SetW 2, SizeValue (i + 1), Text [CHR 0x0A]])
             (path ! i))
      else os)"
  by pat_completeness auto
termination
  by (relation "measure (\<lambda>(i, path, os). length path - i)") auto

declare print_contours.simps [simp del]

definition PrintGlyphPath :: "GlyphPath \<Rightarrow> ostream \<Rightarrow> ostream" where
  "PrintGlyphPath path os =
     print_contours 0 path (put os (Text (''// Extracted Glyph Path:'' @ [CHR 0x0A])))"

text \<open>
  The layout in words: a number right-aligned in a field, a coordinate in a field of
  5, a point, the line of a segment, the lines of contour number \<open>i\<close> (counted from
  0), and the text of a path.
\<close>

definition right_aligned :: "nat \<Rightarrow> string \<Rightarrow> string" where
  "right_aligned w s = replicate (w - length s) (CHR '' '') @ s"

definition decimal :: "int \<Rightarrow> string" where
  "decimal v = (if v < 0 then ''-'' @ dec_digits (nat (- v)) else dec_digits (nat v))"

definition point_text :: "VectorPoint \<Rightarrow> string" where
  "point_text pt =
     ''('' @ right_aligned 5 (decimal (x pt)) @ '', '' @ right_aligned 5 (decimal (y pt)) @ '')''"

definition segment_line :: "PathSegment \<Rightarrow> string" where
  "segment_line s =
     ''      '' @
     (case type s of
        MOVE_TO \<Rightarrow> ''MoveTo '' @ point_text (to s)
      | LINE_TO \<Rightarrow> ''LineTo '' @ point_text (to s)
      | CONIC_TO \<Rightarrow> ''QuadTo '' @ point_text (control s) @ '' '' @ point_text (to s)) @
     [CHR 0x0A]"

definition contour_lines :: "nat \<Rightarrow> Contour \<Rightarrow> string" where
  "contour_lines i c =
     ''   Contour #'' @ right_aligned 2 (dec_digits (i + 1)) @ [CHR 0x0A] @
     concat (map segment_line c)"

definition path_text :: "GlyphPath \<Rightarrow> string" where
  "path_text path =
     ''// Extracted Glyph Path:'' @ [CHR 0x0A] @
     concat (map (\<lambda>i. contour_lines i (path ! i)) [0..<length path])"

text \<open>A path with the control point of every MOVE_TO and LINE_TO segment replaced.\<close>

definition replace_unused_control :: "(PathSegment \<Rightarrow> VectorPoint) \<Rightarrow> PathSegment \<Rightarrow> PathSegment" where
  "replace_unused_control f s = (if type s = CONIC_TO then s else s\<lparr>control := f s\<rparr>)"

text \<open>
  A stream is settled when no field width is pending and numbers are padded on the
  left, as on \<open>std::cout\<close> where \<open>main\<close> calls \<open>PrintGlyphPath\<close>.
\<close>

definition settled :: "ostream \<Rightarrow> bool" where
  "settled os \<longleftrightarrow> width os = 0 \<and> adjust os \<noteq> adjust_left \<and> adjust os \<noteq> adjust_internal"

section \<open>The program\<close>

text \<open>
  The font engine as \<open>main\<close> sees it: the status of each call, as a function of what
  the call is given. A face is known by the path of its font file and a loaded glyph
  by its index in that face. The walk of an outline delivers events to the callbacks
  and ends with the engine's own status. The calls that release the face and the
  library write nothing and return nothing that \<open>main\<close> reads; they are not part of
  the model.
\<close>

record engine =
  Init_FreeType :: int
  New_Face :: "string \<Rightarrow> int"
  Get_Char_Index :: "string \<Rightarrow> nat \<Rightarrow> nat"
  Load_Glyph :: "string \<Rightarrow> nat \<Rightarrow> int"
  glyph_is_outline :: "string \<Rightarrow> nat \<Rightarrow> bool"
  outline_walk :: "string \<Rightarrow> nat \<Rightarrow> event list \<times> int"

text \<open>The error code of the engine's headers for a file of unknown format.\<close>

definition FT_Err_Unknown_File_Format :: int where
  "FT_Err_Unknown_File_Format = 2"

text \<open>
  \<open>static_cast<FT_ULong>\<close> of a \<open>char\<close>, where \<open>char\<close> is signed and \<open>unsigned long\<close>
  has 64 bits: a byte from 128 on is sign-extended.
\<close>

definition ulong_of_char :: "char \<Rightarrow> nat" where
  "ulong_of_char c = (if of_char c < (128::nat) then of_char c else 2 ^ 64 - 256 + of_char c)"

text \<open>\<open>argv[2][0]\<close>: the first byte of a C string, the terminating NUL when it is empty.\<close>

definition first_byte :: "string \<Rightarrow> char" where
  "first_byte s = (case s of [] \<Rightarrow> CHR 0x00 | c # rest \<Rightarrow> c)"

text \<open>
  A run of the program ends with an exit status and what it wrote to standard output
  and to standard error, unless a callback ran into undefined behaviour.
\<close>

datatype run = Exit int string string | Undefined_run

definition usage_message :: "string \<Rightarrow> string" where
  "usage_message argv0 =
     buf (foldl put fresh_stream
            [Text ''Usage: '', Text argv0, Text ('' <font_path.ttf> <character>'' @ [CHR 0x0A])])"

text \<open>
  \<open>main\<close>, given \<open>argv[0]\<close>, the arguments after it (so \<open>argc\<close> is one more than their
  number) and the engine.
\<close>

definition main :: "string \<Rightarrow> string list \<Rightarrow> engine \<Rightarrow> run" where
  "main argv0 args ft =
     (if 1 + length args \<noteq> 3 then Exit 1 [] (usage_message argv0)
      else
        let font_path = args ! 0;
            character_to_load = first_byte (args ! 1);
            error = Init_FreeType ft
        in
        if error \<noteq> 0 then
          Exit 1 []
            (buf (foldl put fresh_stream
               [Text ''Error: Could not initialize FreeType library. Code: '',
                IntValue error, EndLine]))
        else
        let error = New_Face ft font_path in
        if error = FT_Err_Unknown_File_Format then
          Exit 1 []
            (buf (foldl put fresh_stream
               [Text ''Error: The font file could be opened but its format is unsupported.'',
                EndLine]))
        else if error \<noteq> 0 then
          Exit 1 []
            (buf (foldl put fresh_stream
               [Text ''Error: Could not open or process font file: '', Text font_path,
                EndLine]))
        else
        let glyph_index = Get_Char_Index ft font_path (ulong_of_char character_to_load) in
        if glyph_index = 0 then
          Exit 1 []
            (buf (foldl put fresh_stream
               [Text (''Error: Glyph not found for character '' @ [CHR 0x27]),
                Character character_to_load, Text ([CHR 0x27] @ ''.''), EndLine]))
        else
        let error = Load_Glyph ft font_path glyph_index in
        if error \<noteq> 0 then
          Exit 1 []
            (buf (foldl put fresh_stream
               [Text ''Error: Could not load glyph. Code: '', IntValue error, EndLine]))
        else
        if \<not> glyph_is_outline ft font_path glyph_index then
          Exit 1 []
            (buf (foldl put fresh_stream
               [Text ''Error: Glyph format is not an outline.'', EndLine]))
        else
        (case outline_walk ft font_path glyph_index of
           (events, engine_status) \<Rightarrow>
             (case Outline_Decompose events [] of
                Undefined \<Rightarrow> Undefined_run
              | Returned status glyph_path \<Rightarrow>
                  let error = (if status \<noteq> 0 then status else engine_status) in
                  if error \<noteq> 0 then
                    Exit 1 []
                      (buf (foldl put fresh_stream
                         [Text ''Error: Could not decompose glyph outline. Code: '',
                          IntValue error, EndLine]))
                  else
                    Exit 0
                      (buf (PrintGlyphPath glyph_path
                         (foldl put fresh_stream
                            [Text (''// Successfully extracted vector data for character '' @
                                   [CHR 0x27]),
                             Character character_to_load,
                             Text ([CHR 0x27] @ '' from ''), Text font_path,
                             Text (''.'' @ [CHR 0x0A])])))
                      [])))"

text \<open>
  The stages of a run in the order the program goes through them, and the failure, if
  any, that ends it: the taxonomy of the specification.
\<close>

datatype failure =
    UsageError
  | EngineInitError
  | UnsupportedFontFormat
  | FontOpenError
  | GlyphNotFound
  | GlyphLoadError
  | NonOutlineGlyph
  | DecompositionError

definition glyph_of :: "string list \<Rightarrow> engine \<Rightarrow> nat" where
  "glyph_of args ft = Get_Char_Index ft (args ! 0) (ulong_of_char (first_byte (args ! 1)))"

definition delivered_events :: "string list \<Rightarrow> engine \<Rightarrow> event list" where
  "delivered_events args ft = fst (outline_walk ft (args ! 0) (glyph_of args ft))"

definition failure_of :: "string list \<Rightarrow> engine \<Rightarrow> failure option" where
  "failure_of args ft =
     (if length args \<noteq> 2 then Some UsageError
      else if Init_FreeType ft \<noteq> 0 then Some EngineInitError
      else if New_Face ft (args ! 0) = FT_Err_Unknown_File_Format then Some UnsupportedFontFormat
      else if New_Face ft (args ! 0) \<noteq> 0 then Some FontOpenError
      else if glyph_of args ft = 0 then Some GlyphNotFound
      else if Load_Glyph ft (args ! 0) (glyph_of args ft) \<noteq> 0 then Some GlyphLoadError
      else if \<not> glyph_is_outline ft (args ! 0) (glyph_of args ft) then Some NonOutlineGlyph
      else if snd (outline_walk ft (args ! 0) (glyph_of args ft)) \<noteq> 0 then Some DecompositionError
      else None)"

text \<open>The walk is reached when no earlier stage has failed.\<close>

definition reaches_walk :: "string list \<Rightarrow> engine \<Rightarrow> bool" where
  "reaches_walk args ft =
     (failure_of args ft = None \<or> failure_of args ft = Some DecompositionError)"

text \<open>An engine with one font file and a glyph for the letter A only.\<close>

definition sample_engine :: engine where
  "sample_engine =
     \<lparr>Init_FreeType = 0,
      New_Face = (\<lambda>font. if font = ''font.ttf'' then 0 else 1),
      Get_Char_Index = (\<lambda>font code. if code = 65 then 36 else 0),
      Load_Glyph = (\<lambda>font glyph. 0),
      glyph_is_outline = (\<lambda>font glyph. True),
      outline_walk = (\<lambda>font glyph. ([EvMoveTo \<lparr>x = 0, y = 0\<rparr>, EvLineTo \<lparr>x = 10, y = 0\<rparr>], 0))\<rparr>"

text \<open>The same engine, except that loading a glyph fails with code 7.\<close>

definition failing_load_engine :: engine where
  "failing_load_engine = sample_engine\<lparr>Load_Glyph := (\<lambda>font glyph. 7)\<rparr>"

text \<open>
  The glyph index the engine gives for a character of a font: the value of
  \<open>FT_Get_Char_Index\<close> at the character converted to \<open>FT_ULong\<close>.
\<close>

definition glyph_for :: "engine \<Rightarrow> string \<Rightarrow> char \<Rightarrow> nat" where
  "glyph_for ft font_path c = Get_Char_Index ft font_path (ulong_of_char c)"

section \<open>The callbacks mirror the walk\<close>

lemma MoveToFunc_eq: "MoveToFunc pt path = Returned 0 (path @ [[move_segment pt]])"
  by (simp add: MoveToFunc_def move_segment_def zero_point_def)

lemma LineToFunc_snoc:
  "LineToFunc pt (path @ [c]) = Returned 0 (path @ [c @ [edge_segment (Line pt)]])"
  by (simp add: LineToFunc_def zero_point_def)

lemma ConicToFunc_snoc:
  "ConicToFunc ctl pt (path @ [c]) = Returned 0 (path @ [c @ [edge_segment (Conic ctl pt)]])"
  by (simp add: ConicToFunc_def)

lemma invoke_edge_snoc:
  "invoke (edge_event e) (path @ [c]) = Returned 0 (path @ [c @ [edge_segment e]])"
  by (cases e) (simp_all add: LineToFunc_snoc ConicToFunc_snoc)

lemma Outline_Decompose_append:
  "Outline_Decompose es path = Returned 0 path' \<Longrightarrow>
   Outline_Decompose (es @ es') path = Outline_Decompose es' path'"
proof (induction es arbitrary: path)
  case Nil
  then show ?case by simp
next
  case (Cons e es)
  then show ?case by (auto split: outcome.splits if_splits)
qed

lemma Outline_Decompose_edges:
  "Outline_Decompose (map edge_event edges) (path @ [c]) =
     Returned 0 (path @ [c @ map edge_segment edges])"
proof (induction edges arbitrary: c)
  case Nil
  show ?case by simp
next
  case (Cons e edges)
  show ?case using Cons.IH [of "c @ [edge_segment e]"]
    by (simp add: invoke_edge_snoc)
qed

lemma Outline_Decompose_contour:
  "Outline_Decompose (contour_events sc) path = Returned 0 (path @ [contour_segments sc])"
  using Outline_Decompose_edges [of "snd sc" path "[move_segment (fst sc)]"]
  by (cases sc) (simp add: MoveToFunc_eq contour_segments_def)

lemma Outline_Decompose_outline:
  "Outline_Decompose (outline_events outline) path =
     Returned 0 (path @ map contour_segments outline)"
proof (induction outline arbitrary: path)
  case Nil
  show ?case by (simp add: outline_events_def)
next
  case (Cons sc outline)
  have "Outline_Decompose (contour_events sc @ outline_events outline) path =
        Outline_Decompose (outline_events outline) (path @ [contour_segments sc])"
    by (rule Outline_Decompose_append [OF Outline_Decompose_contour])
  then show ?case using Cons.IH [of "path @ [contour_segments sc]"]
    by (simp add: outline_events_def)
qed

text \<open>
  Every event list over moveTo, lineTo and conicTo that obeys the protocol is the
  event list of an outline given contour by contour, so the theorem on outlines below
  speaks of all of them.
\<close>

lemma protocol_events_snoc:
  assumes "es = outline_events outline" and "outline \<noteq> []"
  shows "\<exists>outline'. es @ [edge_event e] = outline_events outline' \<and> outline' \<noteq> []"
proof -
  obtain start edges where l: "last outline = (start, edges)"
    by (cases "last outline")
  let ?o = "butlast outline @ [(start, edges @ [e])]"
  have "outline = butlast outline @ [(start, edges)]"
    using assms(2) l by (metis append_butlast_last_id)
  then have "outline_events outline = outline_events (butlast outline) @ contour_events (start, edges)"
    by (metis (no_types) concat_append map_append outline_events_def concat.simps list.simps(8,9) append_Nil2)
  then have "es @ [edge_event e] = outline_events ?o"
    using assms(1) by (simp add: outline_events_def)
  then show ?thesis by blast
qed

lemma protocol_events_are_outline:
  "respects_protocol es \<Longrightarrow> \<not> list_ex is_cubic es \<Longrightarrow>
   \<exists>outline. es = outline_events outline \<and> (es \<noteq> [] \<longrightarrow> outline \<noteq> [])"
proof (induction es rule: rev_induct)
  case Nil
  show ?case by (rule exI [of _ "[]"]) (simp add: outline_events_def)
next
  case (snoc e es)
  have p: "respects_protocol es"
    using snoc.prems(1) by (cases es rule: respects_protocol.cases) simp_all
  from snoc.IH [OF p] snoc.prems(2)
  obtain outline where o: "es = outline_events outline" "es \<noteq> [] \<longrightarrow> outline \<noteq> []"
    by auto
  show ?case
  proof (cases e)
    case (EvMoveTo pt)
    have "es @ [e] = outline_events (outline @ [(pt, [])])"
      using o(1) EvMoveTo by (simp add: outline_events_def)
    then show ?thesis by blast
  next
    case (EvLineTo pt)
    have ne: "es \<noteq> []" using snoc.prems(1) EvLineTo by (cases es) simp_all
    show ?thesis
      using protocol_events_snoc [OF o(1), of "Line pt"] o(2) ne EvLineTo by auto
  next
    case (EvConicTo ctl pt)
    have ne: "es \<noteq> []" using snoc.prems(1) EvConicTo by (cases es) simp_all
    show ?thesis
      using protocol_events_snoc [OF o(1), of "Conic ctl pt"] o(2) ne EvConicTo by auto
  next
    case (EvCubicTo c1 c2 pt)
    then show ?thesis using snoc.prems(2) by simp
  qed
qed

text \<open>
  C1. Driving the callbacks over an empty accumulator with the events of an outline of
  n contours (each one moveTo followed by its k_i lineTo and conicTo edges) returns the
  continue value with a path of n contours in source order; contour i has 1 + k_i
  segments: the MOVE_TO segment of its starting point, then one segment per edge with
  that edge's kind, end point and (for a conic) control point, in order.
\<close>

theorem decompose_mirrors_outline:
  "\<exists>path. Outline_Decompose (outline_events outline) [] = Returned 0 path \<and>
     length path = length outline \<and>
     (\<forall>i < length outline.
        length (path ! i) = 1 + length (snd (outline ! i)) \<and>
        path ! i ! 0 = \<lparr>type = MOVE_TO, to = fst (outline ! i), control = \<lparr>x = 0, y = 0\<rparr>\<rparr> \<and>
        (\<forall>j < length (snd (outline ! i)).
           path ! i ! (1 + j) = edge_segment (snd (outline ! i) ! j)))"
  using Outline_Decompose_outline [of outline "[]"]
  by (simp add: contour_segments_def move_segment_def zero_point_def)

theorem decompose_mirrors_outline_witness:
  "\<exists>path. Outline_Decompose
       (outline_events
          [(\<lparr>x = 0, y = 0\<rparr>, [Line \<lparr>x = 100, y = 0\<rparr>, Conic \<lparr>x = 150, y = 50\<rparr> \<lparr>x = 100, y = 100\<rparr>]),
           (\<lparr>x = 7, y = -3\<rparr>, [])]) [] = Returned 0 path \<and>
     length path = 2 \<and>
     length (path ! 0) = 3 \<and> length (path ! 1) = 1 \<and>
     path ! 0 ! 0 = \<lparr>type = MOVE_TO, to = \<lparr>x = 0, y = 0\<rparr>, control = \<lparr>x = 0, y = 0\<rparr>\<rparr> \<and>
     path ! 0 ! 1 = \<lparr>type = LINE_TO, to = \<lparr>x = 100, y = 0\<rparr>, control = \<lparr>x = 0, y = 0\<rparr>\<rparr> \<and>
     path ! 0 ! 2 = \<lparr>type = CONIC_TO, to = \<lparr>x = 100, y = 100\<rparr>, control = \<lparr>x = 150, y = 50\<rparr>\<rparr> \<and>
     path ! 1 ! 0 = \<lparr>type = MOVE_TO, to = \<lparr>x = 7, y = -3\<rparr>, control = \<lparr>x = 0, y = 0\<rparr>\<rparr>"
proof -
  let ?outline =
    "[(\<lparr>x = 0, y = 0\<rparr>, [Line \<lparr>x = 100, y = 0\<rparr>, Conic \<lparr>x = 150, y = 50\<rparr> \<lparr>x = 100, y = 100\<rparr>]),
      (\<lparr>x = 7, y = -3\<rparr>, [])]"
  obtain path where d: "Outline_Decompose (outline_events ?outline) [] = Returned 0 path"
    and n: "length path = length ?outline"
    and each: "\<forall>i < length ?outline.
        length (path ! i) = 1 + length (snd (?outline ! i)) \<and>
        path ! i ! 0 = \<lparr>type = MOVE_TO, to = fst (?outline ! i), control = \<lparr>x = 0, y = 0\<rparr>\<rparr> \<and>
        (\<forall>j < length (snd (?outline ! i)).
           path ! i ! (1 + j) = edge_segment (snd (?outline ! i) ! j))"
    using decompose_mirrors_outline [of ?outline] by blast
  have c0: "length (path ! 0) = 3"
       "path ! 0 ! 0 = \<lparr>type = MOVE_TO, to = \<lparr>x = 0, y = 0\<rparr>, control = \<lparr>x = 0, y = 0\<rparr>\<rparr>"
       "\<forall>j < 2. path ! 0 ! (1 + j) =
          edge_segment ([Line \<lparr>x = 100, y = 0\<rparr>, Conic \<lparr>x = 150, y = 50\<rparr> \<lparr>x = 100, y = 100\<rparr>] ! j)"
    using each [rule_format, of 0] by simp_all
  have c1: "length (path ! 1) = 1"
       "path ! 1 ! 0 = \<lparr>type = MOVE_TO, to = \<lparr>x = 7, y = -3\<rparr>, control = \<lparr>x = 0, y = 0\<rparr>\<rparr>"
    using each [rule_format, of 1] by simp_all
  have e1: "path ! 0 ! 1 = \<lparr>type = LINE_TO, to = \<lparr>x = 100, y = 0\<rparr>, control = \<lparr>x = 0, y = 0\<rparr>\<rparr>"
    using c0(3) [rule_format, of 0] by (simp add: zero_point_def)
  have e2: "path ! 0 ! 2 = \<lparr>type = CONIC_TO, to = \<lparr>x = 100, y = 100\<rparr>, control = \<lparr>x = 150, y = 50\<rparr>\<rparr>"
    using c0(3) [rule_format, of 1] by (simp add: numeral_2_eq_2)
  show ?thesis using d n c0(1,2) c1 e1 e2 by simp
qed

section \<open>Invariants of the accumulator\<close>

lemma invoke_nonempty:
  "path \<noteq> [] \<Longrightarrow> \<exists>path'. invoke e path = Returned 0 path' \<and> path' \<noteq> []"
  by (cases e) (simp_all add: MoveToFunc_eq LineToFunc_def ConicToFunc_def CubicToFunc_def)

lemma Outline_Decompose_nonempty:
  "path \<noteq> [] \<Longrightarrow> \<exists>path'. Outline_Decompose es path = Returned 0 path' \<and> path' \<noteq> []"
proof (induction es arbitrary: path)
  case Nil
  then show ?case by simp
next
  case (Cons e es)
  from invoke_nonempty [OF Cons.prems, of e]
  obtain p1 where p1: "invoke e path = Returned 0 p1" "p1 \<noteq> []" by blast
  from Cons.IH [OF p1(2)] p1(1) show ?case by simp
qed

lemma protocol_returns:
  "respects_protocol es \<Longrightarrow> \<exists>path. Outline_Decompose es [] = Returned 0 path"
proof (cases es rule: respects_protocol.cases)
  case 1
  then show ?thesis by simp
next
  case (2 pt es')
  have "\<exists>path. Outline_Decompose es' [[move_segment pt]] = Returned 0 path \<and> path \<noteq> []"
    by (rule Outline_Decompose_nonempty) simp
  then show ?thesis using 2 by (auto simp add: MoveToFunc_eq)
qed simp_all

lemma protocol_take: "respects_protocol es \<Longrightarrow> respects_protocol (take k es)"
  by (cases es rule: respects_protocol.cases; cases k) simp_all

lemma starts_with_move_snoc: "starts_with_move c \<Longrightarrow> starts_with_move (c @ [s])"
  by (cases c) (simp_all add: starts_with_move_def)

lemma contours_open_append_last:
  "contours_open path \<Longrightarrow> path \<noteq> [] \<Longrightarrow> contours_open (butlast path @ [last path @ [s]])"
proof -
  assume a: "contours_open path" "path \<noteq> []"
  then have "path = butlast path @ [last path]" by simp
  then have "contours_open (butlast path @ [last path])" using a(1) by simp
  then show ?thesis by (simp add: contours_open_def starts_with_move_snoc)
qed

lemma invoke_contours_open:
  "invoke e path = Returned status path' \<Longrightarrow> contours_open path \<Longrightarrow> contours_open path'"
proof (cases e)
  case (EvMoveTo pt)
  assume "invoke e path = Returned status path'" "contours_open path"
  then show ?thesis using EvMoveTo
    by (auto simp add: MoveToFunc_eq contours_open_def starts_with_move_def move_segment_def)
next
  case (EvLineTo pt)
  assume "invoke e path = Returned status path'" "contours_open path"
  then show ?thesis using EvLineTo
    by (auto simp add: LineToFunc_def contours_open_append_last split: if_splits)
next
  case (EvConicTo ctl pt)
  assume "invoke e path = Returned status path'" "contours_open path"
  then show ?thesis using EvConicTo
    by (auto simp add: ConicToFunc_def contours_open_append_last split: if_splits)
next
  case (EvCubicTo c1 c2 pt)
  assume "invoke e path = Returned status path'" "contours_open path"
  then show ?thesis using EvCubicTo by (simp add: CubicToFunc_def)
qed

lemma Outline_Decompose_contours_open:
  "Outline_Decompose es path = Returned status path' \<Longrightarrow> contours_open path
   \<Longrightarrow> contours_open path'"
proof (induction es arbitrary: path)
  case Nil
  then show ?case by simp
next
  case (Cons e es)
  then show ?case
    by (auto split: outcome.splits if_splits dest: invoke_contours_open)
qed

lemma starts_with_move_iff: "starts_with_move c \<longleftrightarrow> c \<noteq> [] \<and> type (hd c) = MOVE_TO"
  by (cases c) (simp_all add: starts_with_move_def)

lemma contours_open_iff:
  "contours_open path \<longleftrightarrow> (\<forall>c \<in> set path. c \<noteq> [] \<and> type (hd c) = MOVE_TO)"
  by (simp add: contours_open_def list_all_iff starts_with_move_iff)

text \<open>
  C2. On every event list that obeys the protocol, the walk from the empty accumulator
  returns after every prefix of the events (that is, after each single callback
  invocation and at the end), and in the path it has built by then every contour is
  non-empty and begins with a MOVE_TO segment.
\<close>

theorem contours_begin_with_move:
  assumes "respects_protocol es"
  shows "\<forall>k \<le> length es. \<exists>path.
           Outline_Decompose (take k es) [] = Returned 0 path \<and>
           (\<forall>c \<in> set path. c \<noteq> [] \<and> type (hd c) = MOVE_TO)"
proof (intro allI impI)
  fix k assume "k \<le> length es"
  from protocol_returns [OF protocol_take [OF assms, of k]]
  obtain path where p: "Outline_Decompose (take k es) [] = Returned 0 path" by blast
  have "contours_open []" by (simp add: contours_open_def)
  from Outline_Decompose_contours_open [OF p this]
  have "\<forall>c \<in> set path. c \<noteq> [] \<and> type (hd c) = MOVE_TO"
    by (simp add: contours_open_iff)
  with p show "\<exists>path. Outline_Decompose (take k es) [] = Returned 0 path \<and>
           (\<forall>c \<in> set path. c \<noteq> [] \<and> type (hd c) = MOVE_TO)" by blast
qed


theorem contours_begin_with_move_witness:
  "respects_protocol
     [EvMoveTo \<lparr>x = 0, y = 0\<rparr>, EvLineTo \<lparr>x = 5, y = 0\<rparr>,
      EvCubicTo \<lparr>x = 1, y = 1\<rparr> \<lparr>x = 2, y = 2\<rparr> \<lparr>x = 3, y = 3\<rparr>, EvMoveTo \<lparr>x = 9, y = 9\<rparr>] \<and>
   (2::nat) \<le> length
     [EvMoveTo \<lparr>x = 0, y = 0\<rparr>, EvLineTo \<lparr>x = 5, y = 0\<rparr>,
      EvCubicTo \<lparr>x = 1, y = 1\<rparr> \<lparr>x = 2, y = 2\<rparr> \<lparr>x = 3, y = 3\<rparr>, EvMoveTo \<lparr>x = 9, y = 9\<rparr>] \<and>
   (\<exists>path. Outline_Decompose
       (take 2 [EvMoveTo \<lparr>x = 0, y = 0\<rparr>, EvLineTo \<lparr>x = 5, y = 0\<rparr>,
                EvCubicTo \<lparr>x = 1, y = 1\<rparr> \<lparr>x = 2, y = 2\<rparr> \<lparr>x = 3, y = 3\<rparr>,
                EvMoveTo \<lparr>x = 9, y = 9\<rparr>]) [] = Returned 0 path \<and>
      (\<forall>c \<in> set path. c \<noteq> [] \<and> type (hd c) = MOVE_TO))"
proof -
  let ?es = "[EvMoveTo \<lparr>x = 0, y = 0\<rparr>, EvLineTo \<lparr>x = 5, y = 0\<rparr>,
      EvCubicTo \<lparr>x = 1, y = 1\<rparr> \<lparr>x = 2, y = 2\<rparr> \<lparr>x = 3, y = 3\<rparr>, EvMoveTo \<lparr>x = 9, y = 9\<rparr>]"
  have h: "respects_protocol ?es" by simp
  have k: "(2::nat) \<le> length ?es" by simp
  from contours_begin_with_move [OF h, rule_format, OF k] h k
  show ?thesis by blast
qed

section \<open>Single callback invocations\<close>

text \<open>
  C5 (as amended). A lineTo or conicTo callback invoked on an empty accumulator makes
  no check: it applies \<open>back()\<close> to the empty vector, which is undefined behaviour,
  and hands no failure status back; a walk that begins with such an event is
  undefined whatever follows.
\<close>

theorem edge_before_move_is_undefined:
  "LineToFunc pt [] = Undefined \<and> ConicToFunc ctl pt [] = Undefined \<and>
   \<not> fails_fast (LineToFunc pt []) \<and> \<not> fails_fast (ConicToFunc ctl pt []) \<and>
   Outline_Decompose (EvLineTo pt # es) [] = Undefined \<and>
   Outline_Decompose (EvConicTo ctl pt # es) [] = Undefined"
  by (simp add: LineToFunc_def ConicToFunc_def)

theorem edge_before_move_counterexample:
  "LineToFunc \<lparr>x = 10, y = 20\<rparr> [] = Undefined \<and>
   \<not> fails_fast (LineToFunc \<lparr>x = 10, y = 20\<rparr> []) \<and>
   ConicToFunc \<lparr>x = 5, y = 5\<rparr> \<lparr>x = 10, y = 20\<rparr> [] = Undefined \<and>
   \<not> fails_fast (ConicToFunc \<lparr>x = 5, y = 5\<rparr> \<lparr>x = 10, y = 20\<rparr> [])"
  by (simp add: LineToFunc_def ConicToFunc_def)

text \<open>
  C6. Whatever the accumulator and the three points of the cubic, \<open>CubicToFunc\<close>
  returns the continue value 0 and leaves the accumulator as it was.
\<close>

theorem CubicToFunc_is_noop:
  "CubicToFunc control1 control2 pt path = Returned 0 path \<and>
   return_code (CubicToFunc control1 control2 pt path) = Some 0 \<and>
   \<not> fails_fast (CubicToFunc control1 control2 pt path) \<and>
   Outline_Decompose (EvCubicTo control1 control2 pt # es) path = Outline_Decompose es path"
  by (simp add: CubicToFunc_def)

text \<open>
  C9 (as amended). \<open>MoveToFunc\<close> and \<open>CubicToFunc\<close> return 0 on every invocation;
  \<open>LineToFunc\<close> and \<open>ConicToFunc\<close> return 0 on every invocation whose accumulator
  holds at least one contour; and no callback ever returns a status other than 0.
\<close>

theorem callbacks_return_continue:
  "return_code (MoveToFunc pt path) = Some 0 \<and>
   return_code (CubicToFunc control1 control2 pt path) = Some 0 \<and>
   (path \<noteq> [] \<longrightarrow> return_code (LineToFunc pt path) = Some 0 \<and>
                  return_code (ConicToFunc ctl pt path) = Some 0) \<and>
   \<not> fails_fast (invoke e path)"
proof -
  have "\<not> fails_fast (invoke e path)"
    by (cases e) (simp_all add: MoveToFunc_eq LineToFunc_def ConicToFunc_def CubicToFunc_def)
  then show ?thesis
    by (simp add: MoveToFunc_eq LineToFunc_def ConicToFunc_def CubicToFunc_def)
qed

theorem callbacks_return_continue_witness:
  "[[move_segment \<lparr>x = 0, y = 0\<rparr>]] \<noteq> [] \<and>
   return_code (LineToFunc \<lparr>x = 3, y = 4\<rparr> [[move_segment \<lparr>x = 0, y = 0\<rparr>]]) = Some 0 \<and>
   return_code (ConicToFunc \<lparr>x = 1, y = 2\<rparr> \<lparr>x = 3, y = 4\<rparr> [[move_segment \<lparr>x = 0, y = 0\<rparr>]]) = Some 0"
  using callbacks_return_continue
          [of "\<lparr>x = 3, y = 4\<rparr>" "[[move_segment \<lparr>x = 0, y = 0\<rparr>]]" _ _ "\<lparr>x = 1, y = 2\<rparr>"]
  by simp

theorem callbacks_return_continue_counterexample:
  "return_code (LineToFunc \<lparr>x = 10, y = 20\<rparr> []) \<noteq> Some 0"
  by (simp add: LineToFunc_def)

section \<open>Replaying a walk\<close>

lemma VectorPoint_eta: "\<lparr>x = x pt, y = y pt\<rparr> = pt"
  by simp

lemma walk_gather:
  "path \<noteq> [] \<Longrightarrow>
   Outline_Decompose es path =
     Returned 0 (butlast path @ [last path @ fst (gather es)] @ snd (gather es))"
proof (induction es arbitrary: path)
  case Nil
  then show ?case by simp
next
  case (Cons e es)
  show ?case
  proof (cases e)
    case (EvMoveTo pt)
    have "Outline_Decompose es (path @ [[move_segment pt]]) =
          Returned 0 (path @ [move_segment pt # fst (gather es)] @ snd (gather es))"
      using Cons.IH [of "path @ [[move_segment pt]]"] by simp
    then show ?thesis using EvMoveTo Cons.prems
      by (simp add: MoveToFunc_eq move_segment_def zero_point_def)
  next
    case (EvLineTo pt)
    let ?p = "butlast path @ [last path @ [edge_segment (Line pt)]]"
    have "Outline_Decompose es ?p =
          Returned 0 (butlast ?p @ [last ?p @ fst (gather es)] @ snd (gather es))"
      by (rule Cons.IH) simp
    then show ?thesis using EvLineTo Cons.prems
      by (simp add: LineToFunc_def zero_point_def VectorPoint_eta)
  next
    case (EvConicTo ctl pt)
    let ?p = "butlast path @ [last path @ [edge_segment (Conic ctl pt)]]"
    have "Outline_Decompose es ?p =
          Returned 0 (butlast ?p @ [last ?p @ fst (gather es)] @ snd (gather es))"
      by (rule Cons.IH) simp
    then show ?thesis using EvConicTo Cons.prems
      by (simp add: ConicToFunc_def VectorPoint_eta)
  next
    case (EvCubicTo c1 c2 pt)
    then show ?thesis using Cons.IH [OF Cons.prems] by (simp add: CubicToFunc_def)
  qed
qed

lemma walk_from_empty:
  "Outline_Decompose es [] = Returned status path \<Longrightarrow>
   status = 0 \<and> path = contours_in_order es"
proof (induction es)
  case Nil
  then show ?case by (simp add: contours_in_order_def)
next
  case (Cons e es)
  show ?case
  proof (cases e)
    case (EvMoveTo pt)
    have "Outline_Decompose es [[move_segment pt]] =
          Returned 0 ([move_segment pt # fst (gather es)] @ snd (gather es))"
      using walk_gather [of "[[move_segment pt]]" es] by simp
    then show ?thesis using EvMoveTo Cons.prems
      by (simp add: MoveToFunc_eq contours_in_order_def move_segment_def zero_point_def)
  next
    case (EvLineTo pt)
    then show ?thesis using Cons.prems by (simp add: LineToFunc_def)
  next
    case (EvConicTo ctl pt)
    then show ?thesis using Cons.prems by (simp add: ConicToFunc_def)
  next
    case (EvCubicTo c1 c2 pt)
    then show ?thesis using Cons
      by (simp add: CubicToFunc_def contours_in_order_def)
  qed
qed

lemma Outline_Decompose_at_user:
  "mem user = Some path \<Longrightarrow>
   Outline_Decompose_at es user mem =
     (case Outline_Decompose es path of
        Undefined \<Rightarrow> Stuck
      | Returned status path' \<Rightarrow> Done status (mem(user \<mapsto> path')))"
proof (induction es arbitrary: mem path)
  case Nil
  then show ?case by (simp add: map_upd_triv)
next
  case (Cons e es)
  show ?case
  proof (cases "invoke e path")
    case Undefined
    then show ?thesis using Cons.prems by (simp add: through_user_def)
  next
    case (Returned status path')
    show ?thesis
    proof (cases "status = 0")
      case False
      then show ?thesis using Returned Cons.prems by (simp add: through_user_def)
    next
      case True
      have ih: "Outline_Decompose_at es user (mem(user \<mapsto> path')) =
            (case Outline_Decompose es path' of
               Undefined \<Rightarrow> Stuck
             | Returned status path'' \<Rightarrow> Done status (mem(user \<mapsto> path'')))"
      proof -
        have m: "(mem(user \<mapsto> path')) user = Some path'" by simp
        show ?thesis
          by (simp only: Cons.IH [of "mem(user \<mapsto> path')" path', OF m] fun_upd_upd)
      qed
      have "Outline_Decompose_at (e # es) user mem =
            Outline_Decompose_at es user (mem(user \<mapsto> path'))"
        using True Returned Cons.prems by (simp add: through_user_def)
      moreover have "Outline_Decompose (e # es) path = Outline_Decompose es path'"
        using True Returned by simp
      ultimately show ?thesis using ih by simp
    qed
  qed
qed

text \<open>
  C8. Take two replays of one event list, each on an accumulator that is empty at the
  start, wherever the two accumulators lie in memory and whatever else the memory
  holds (so also when the second replay runs in the memory the first one has left).
  On an event list that obeys the protocol both replays run to the end with the
  continue value. Whenever both run to the end, the two accumulators hold the same
  path, it is the path that mirrors the events in order, and each replay has changed
  nothing in memory but its own accumulator.
\<close>

theorem replay_is_deterministic:
  assumes "mem1 user1 = Some []" and "mem2 user2 = Some []"
  shows "(respects_protocol es \<longrightarrow>
            (\<exists>mem1' mem2'. Outline_Decompose_at es user1 mem1 = Done 0 mem1' \<and>
                           Outline_Decompose_at es user2 mem2 = Done 0 mem2')) \<and>
         (\<forall>status1 status2 mem1' mem2'.
            Outline_Decompose_at es user1 mem1 = Done status1 mem1' \<and>
            Outline_Decompose_at es user2 mem2 = Done status2 mem2' \<longrightarrow>
              mem1' user1 = mem2' user2 \<and>
              mem1' user1 = Some (contours_in_order es) \<and>
              (\<forall>a. a \<noteq> user1 \<longrightarrow> mem1' a = mem1 a) \<and>
              (\<forall>a. a \<noteq> user2 \<longrightarrow> mem2' a = mem2 a))"
proof (intro conjI allI impI)
  assume "respects_protocol es"
  then obtain path where "Outline_Decompose es [] = Returned 0 path"
    using protocol_returns by blast
  then show "\<exists>mem1' mem2'. Outline_Decompose_at es user1 mem1 = Done 0 mem1' \<and>
                           Outline_Decompose_at es user2 mem2 = Done 0 mem2'"
    using Outline_Decompose_at_user [of mem1 user1 "[]" es]
      Outline_Decompose_at_user [of mem2 user2 "[]" es] assms
    by simp
next
  fix status1 status2 mem1' mem2'
  assume d: "Outline_Decompose_at es user1 mem1 = Done status1 mem1' \<and>
             Outline_Decompose_at es user2 mem2 = Done status2 mem2'"
  from d obtain p1 where p1: "Outline_Decompose es [] = Returned status1 p1"
    "mem1' = mem1(user1 \<mapsto> p1)"
    using Outline_Decompose_at_user [of mem1 user1 "[]" es] assms(1)
    by (auto split: outcome.splits)
  from d obtain p2 where p2: "Outline_Decompose es [] = Returned status2 p2"
    "mem2' = mem2(user2 \<mapsto> p2)"
    using Outline_Decompose_at_user [of mem2 user2 "[]" es] assms(2)
    by (auto split: outcome.splits)
  from walk_from_empty [OF p1(1)] walk_from_empty [OF p2(1)] p1(2) p2(2)
  show "mem1' user1 = mem2' user2" "mem1' user1 = Some (contours_in_order es)"
    "\<And>a. a \<noteq> user1 \<Longrightarrow> mem1' a = mem1 a" "\<And>a. a \<noteq> user2 \<Longrightarrow> mem2' a = mem2 a"
    by simp_all
qed

theorem replay_is_deterministic_witness:
  "(Map.empty(0 \<mapsto> [])) (0::nat) = Some ([]::GlyphPath) \<and>
   respects_protocol
     [EvMoveTo \<lparr>x = 1, y = 2\<rparr>, EvLineTo \<lparr>x = 3, y = 4\<rparr>,
      EvCubicTo \<lparr>x = 9, y = 9\<rparr> \<lparr>x = 8, y = 8\<rparr> \<lparr>x = 7, y = 7\<rparr>, EvMoveTo \<lparr>x = 5, y = 6\<rparr>] \<and>
   (\<exists>mem1' mem2'.
      Outline_Decompose_at
        [EvMoveTo \<lparr>x = 1, y = 2\<rparr>, EvLineTo \<lparr>x = 3, y = 4\<rparr>,
         EvCubicTo \<lparr>x = 9, y = 9\<rparr> \<lparr>x = 8, y = 8\<rparr> \<lparr>x = 7, y = 7\<rparr>, EvMoveTo \<lparr>x = 5, y = 6\<rparr>]
        0 (Map.empty(0 \<mapsto> [])) = Done 0 mem1' \<and>
      Outline_Decompose_at
        [EvMoveTo \<lparr>x = 1, y = 2\<rparr>, EvLineTo \<lparr>x = 3, y = 4\<rparr>,
         EvCubicTo \<lparr>x = 9, y = 9\<rparr> \<lparr>x = 8, y = 8\<rparr> \<lparr>x = 7, y = 7\<rparr>, EvMoveTo \<lparr>x = 5, y = 6\<rparr>]
        1 (mem1'(1 \<mapsto> [])) = Done 0 mem2' \<and>
      mem1' 0 =
        Some [[\<lparr>type = MOVE_TO, to = \<lparr>x = 1, y = 2\<rparr>, control = \<lparr>x = 0, y = 0\<rparr>\<rparr>,
               \<lparr>type = LINE_TO, to = \<lparr>x = 3, y = 4\<rparr>, control = \<lparr>x = 0, y = 0\<rparr>\<rparr>],
              [\<lparr>type = MOVE_TO, to = \<lparr>x = 5, y = 6\<rparr>, control = \<lparr>x = 0, y = 0\<rparr>\<rparr>]] \<and>
      mem2' 1 = mem1' 0 \<and> mem2' 0 = mem1' 0)"
proof -
  let ?es = "[EvMoveTo \<lparr>x = 1, y = 2\<rparr>, EvLineTo \<lparr>x = 3, y = 4\<rparr>,
      EvCubicTo \<lparr>x = 9, y = 9\<rparr> \<lparr>x = 8, y = 8\<rparr> \<lparr>x = 7, y = 7\<rparr>, EvMoveTo \<lparr>x = 5, y = 6\<rparr>]"
  let ?m = "(Map.empty(0 \<mapsto> [])) :: memory"
  have a1: "?m 0 = Some []" by simp
  have h: "respects_protocol ?es" by simp
  have c: "contours_in_order ?es =
        [[\<lparr>type = MOVE_TO, to = \<lparr>x = 1, y = 2\<rparr>, control = \<lparr>x = 0, y = 0\<rparr>\<rparr>,
          \<lparr>type = LINE_TO, to = \<lparr>x = 3, y = 4\<rparr>, control = \<lparr>x = 0, y = 0\<rparr>\<rparr>],
         [\<lparr>type = MOVE_TO, to = \<lparr>x = 5, y = 6\<rparr>, control = \<lparr>x = 0, y = 0\<rparr>\<rparr>]]"
    by (simp add: contours_in_order_def)
  from replay_is_deterministic [of ?m 0 ?m 0 ?es] a1 h
  obtain mem1' where r1: "Outline_Decompose_at ?es 0 ?m = Done 0 mem1'" by blast
  have a2: "(mem1'(1 \<mapsto> [])) 1 = Some []" by simp
  note t = replay_is_deterministic [of ?m 0 "mem1'(1 \<mapsto> [])" 1 ?es, OF a1 a2]
  from t h r1 obtain mem2' where
    r2: "Outline_Decompose_at ?es 1 (mem1'(1 \<mapsto> [])) = Done 0 mem2'" by auto
  from t r1 r2 have e: "mem1' 0 = mem2' 1" "mem1' 0 = Some (contours_in_order ?es)"
    and f: "\<forall>a. a \<noteq> 1 \<longrightarrow> mem2' a = (mem1'(1 \<mapsto> [])) a"
    by blast+
  from f have "mem2' 0 = mem1' 0" by simp
  with r1 r2 e c a1 h show ?thesis by (intro conjI exI [of _ mem1'] exI [of _ mem2']) simp_all
qed

section \<open>The printed layout\<close>

lemma pad_text_zero [simp]: "pad_text adj 0 s = s"
  by (simp add: pad_text_def fill_def)

lemma pad_number_right:
  "adj \<noteq> adjust_left \<Longrightarrow> adj \<noteq> adjust_internal \<Longrightarrow>
   pad_number adj w sign digits = right_aligned w (sign @ digits)"
  by (simp add: pad_number_def right_aligned_def fill_def)

lemma sign_digits_decimal: "sign_of v @ dec_digits (nat \<bar>v\<bar>) = decimal v"
  by (simp add: sign_of_def decimal_def abs_if)

lemma put_text_plain:
  "width os = 0 \<Longrightarrow> put os (Text s) = os\<lparr>buf := buf os @ s\<rparr>"
  by simp

lemma put_coordinate:
  "foldl put os [AdjustRight, SetW 5, LongValue v] =
     os\<lparr>buf := buf os @ right_aligned 5 (decimal v), width := 0, adjust := adjust_right\<rparr>"
  by (simp add: pad_number_right sign_digits_decimal)

lemma put_point:
  "width os = 0 \<Longrightarrow>
   foldl put os [AdjustRight, SetW 5, LongValue (x pt), Text '', '',
                 AdjustRight, SetW 5, LongValue (y pt)] =
     os\<lparr>buf := buf os @ right_aligned 5 (decimal (x pt)) @ '', '' @ right_aligned 5 (decimal (y pt)),
        width := 0, adjust := adjust_right\<rparr>"
  by (simp add: pad_number_right sign_digits_decimal)

lemma print_segment_line:
  assumes "width os = 0"
  shows "print_segment os s = os\<lparr>buf := buf os @ segment_line s, width := 0, adjust := adjust_right\<rparr>"
proof (cases "type s")
  case MOVE_TO
  then show ?thesis using assms
    by (simp add: print_segment_def segment_line_def point_text_def pad_number_right sign_digits_decimal)
next
  case LINE_TO
  then show ?thesis using assms
    by (simp add: print_segment_def segment_line_def point_text_def pad_number_right sign_digits_decimal)
next
  case CONIC_TO
  then show ?thesis using assms
    by (simp add: print_segment_def segment_line_def point_text_def pad_number_right sign_digits_decimal)
qed

lemma print_segments_lines:
  "settled os \<Longrightarrow>
   settled (foldl print_segment os c) \<and>
   buf (foldl print_segment os c) = buf os @ concat (map segment_line c)"
proof (induction c arbitrary: os)
  case Nil
  then show ?case by simp
next
  case (Cons s c)
  have w: "width os = 0" using Cons.prems by (simp add: settled_def)
  have "settled (print_segment os s)"
    by (simp add: print_segment_line [OF w] settled_def)
  from Cons.IH [OF this] show ?case
    by (simp add: print_segment_line [OF w])
qed

lemma put_contour_header:
  assumes "settled os"
  shows "settled (foldl put os [Text ''   Contour #'', SetW 2, SizeValue (i + 1), Text [CHR 0x0A]])"
    and "buf (foldl put os [Text ''   Contour #'', SetW 2, SizeValue (i + 1), Text [CHR 0x0A]]) =
         buf os @ ''   Contour #'' @ right_aligned 2 (dec_digits (i + 1)) @ [CHR 0x0A]"
  using assms by (simp_all add: settled_def pad_number_right)

lemma print_contours_lines:
  "settled os \<Longrightarrow>
   settled (print_contours i path os) \<and>
   buf (print_contours i path os) =
     buf os @ concat (map (\<lambda>k. contour_lines k (path ! k)) [i..<length path])"
proof (induction i path os rule: print_contours.induct)
  case (1 i path os)
  show ?case
  proof (cases "i < length path")
    case False
    then show ?thesis using "1.prems" by (simp add: print_contours.simps [of i])
  next
    case True
    define h where "h = foldl put os [Text ''   Contour #'', SetW 2, SizeValue (i + 1), Text [CHR 0x0A]]"
    define b where "b = foldl print_segment h (path ! i)"
    have h: "settled h"
      unfolding h_def by (rule put_contour_header(1) [OF "1.prems"])
    have hb: "buf h = buf os @ ''   Contour #'' @ right_aligned 2 (dec_digits (i + 1)) @ [CHR 0x0A]"
      unfolding h_def by (rule put_contour_header(2) [OF "1.prems"])
    have b: "settled b" "buf b = buf h @ concat (map segment_line (path ! i))"
      using print_segments_lines [OF h, of "path ! i"] by (simp_all add: b_def)
    have r: "print_contours i path os = print_contours (i + 1) path b"
      using True by (subst print_contours.simps) (simp add: b_def h_def)
    have u: "[i..<length path] = i # [i + 1..<length path]"
      using True by (simp add: upt_conv_Cons)
    have ih: "settled (print_contours (i + 1) path b) \<and>
              buf (print_contours (i + 1) path b) =
                buf b @ concat (map (\<lambda>k. contour_lines k (path ! k)) [i + 1..<length path])"
      using "1.IH" [OF True] b(1) by (simp add: b_def h_def)
    have "buf b = buf os @ contour_lines i (path ! i)"
      by (simp add: b(2) hb contour_lines_def)
    with ih show ?thesis
      unfolding r u by simp
  qed
qed

text \<open>
  C3. On a stream with no pending width that pads on the left (as \<open>std::cout\<close> is
  where the program prints), \<open>PrintGlyphPath\<close> appends exactly the text of the path:
  the heading line, then for the contour at index i a line with the number i + 1
  right-aligned in a field of 2, followed by one line per segment, which is
  \<open>MoveTo (x, y)\<close>, \<open>LineTo (x, y)\<close> or \<open>QuadTo (cx, cy) (x, y)\<close> with every
  coordinate right-aligned in a field of 5 (a longer number takes the room it
  needs); there is no fourth form of line.
\<close>

theorem PrintGlyphPath_layout:
  assumes "width os = 0" and "adjust os \<noteq> adjust_left" and "adjust os \<noteq> adjust_internal"
  shows "buf (PrintGlyphPath path os) = buf os @ path_text path"
proof -
  have "settled (put os (Text (''// Extracted Glyph Path:'' @ [CHR 0x0A])))"
    using assms by (simp add: settled_def)
  from print_contours_lines [OF this, of 0 path] show ?thesis
    using assms(1) by (simp add: PrintGlyphPath_def path_text_def)
qed

theorem PrintGlyphPath_layout_witness:
  "width fresh_stream = 0 \<and> adjust fresh_stream \<noteq> adjust_left \<and>
   adjust fresh_stream \<noteq> adjust_internal \<and>
   buf (PrintGlyphPath
          [[\<lparr>type = MOVE_TO, to = \<lparr>x = 0, y = -12\<rparr>, control = \<lparr>x = 0, y = 0\<rparr>\<rparr>,
            \<lparr>type = LINE_TO, to = \<lparr>x = 100, y = 7\<rparr>, control = \<lparr>x = 0, y = 0\<rparr>\<rparr>,
            \<lparr>type = CONIC_TO, to = \<lparr>x = 100, y = -100\<rparr>, control = \<lparr>x = 123456, y = 7\<rparr>\<rparr>]]
          fresh_stream) =
     ''// Extracted Glyph Path:'' @ [CHR 0x0A] @
     ''   Contour # 1'' @ [CHR 0x0A] @
     ''      MoveTo (    0,   -12)'' @ [CHR 0x0A] @
     ''      LineTo (  100,     7)'' @ [CHR 0x0A] @
     ''      QuadTo (123456,     7) (  100,  -100)'' @ [CHR 0x0A]"
proof -
  let ?p = "[[\<lparr>type = MOVE_TO, to = \<lparr>x = 0, y = -12\<rparr>, control = \<lparr>x = 0, y = 0\<rparr>\<rparr>,
            \<lparr>type = LINE_TO, to = \<lparr>x = 100, y = 7\<rparr>, control = \<lparr>x = 0, y = 0\<rparr>\<rparr>,
            \<lparr>type = CONIC_TO, to = \<lparr>x = 100, y = -100\<rparr>, control = \<lparr>x = 123456, y = 7\<rparr>\<rparr>]]"
  have h: "width fresh_stream = 0" "adjust fresh_stream \<noteq> adjust_left"
    "adjust fresh_stream \<noteq> adjust_internal"
    by (simp_all add: fresh_stream_def)
  have dd: "dec_digits 0 = ''0''" "dec_digits (Suc 0) = ''1''" "dec_digits 7 = ''7''"
    "dec_digits 12 = ''12''" "dec_digits 100 = ''100''" "dec_digits 123456 = ''123456''"
    by (simp_all add: dec_digits.simps digit_char_def)
  have dm: "decimal 0 = ''0''" "decimal (- 12) = ''-12''" "decimal 7 = ''7''"
    "decimal 100 = ''100''" "decimal (- 100) = ''-100''" "decimal 123456 = ''123456''"
    by (simp_all add: decimal_def dd)
  have ra: "right_aligned 5 ''0'' = ''    0''" "right_aligned 5 ''-12'' = ''  -12''"
    "right_aligned 5 ''7'' = ''    7''" "right_aligned 5 ''100'' = ''  100''"
    "right_aligned 5 ''-100'' = '' -100''" "right_aligned 5 ''123456'' = ''123456''"
    "right_aligned 2 ''1'' = '' 1''"
    by (simp_all add: right_aligned_def numeral_eq_Suc)
  have e: "path_text ?p =
     ''// Extracted Glyph Path:'' @ [CHR 0x0A] @
     ''   Contour # 1'' @ [CHR 0x0A] @
     ''      MoveTo (    0,   -12)'' @ [CHR 0x0A] @
     ''      LineTo (  100,     7)'' @ [CHR 0x0A] @
     ''      QuadTo (123456,     7) (  100,  -100)'' @ [CHR 0x0A]"
    by (simp add: path_text_def contour_lines_def segment_line_def point_text_def dm dd ra)
  have b: "buf fresh_stream = []" by (simp add: fresh_stream_def)
  have "buf (PrintGlyphPath ?p fresh_stream) = path_text ?p"
    using PrintGlyphPath_layout [OF h, of ?p] unfolding b by simp
  then have "buf (PrintGlyphPath ?p fresh_stream) =
     ''// Extracted Glyph Path:'' @ [CHR 0x0A] @
     ''   Contour # 1'' @ [CHR 0x0A] @
     ''      MoveTo (    0,   -12)'' @ [CHR 0x0A] @
     ''      LineTo (  100,     7)'' @ [CHR 0x0A] @
     ''      QuadTo (123456,     7) (  100,  -100)'' @ [CHR 0x0A]"
    unfolding e .
  with h show ?thesis by blast
qed

section \<open>The control point of a straight segment\<close>

lemma control_unused_append_last:
  "controls_zero path \<Longrightarrow> path \<noteq> [] \<Longrightarrow> control_unused s \<Longrightarrow>
   controls_zero (butlast path @ [last path @ [s]])"
proof -
  assume a: "controls_zero path" "path \<noteq> []" "control_unused s"
  then have "path = butlast path @ [last path]" by simp
  then have "controls_zero (butlast path @ [last path])" using a(1) by simp
  then show ?thesis using a(3) by (simp add: controls_zero_def)
qed

lemma invoke_controls_zero:
  assumes "invoke e path = Returned status path'" and "controls_zero path"
  shows "controls_zero path'"
proof (cases e)
  case (EvMoveTo pt)
  then show ?thesis using assms
    by (auto simp add: MoveToFunc_eq controls_zero_def control_unused_def move_segment_def)
next
  case (EvLineTo pt)
  then show ?thesis using assms
    by (auto simp add: LineToFunc_def control_unused_append_last control_unused_def
        zero_point_def split: if_splits)
next
  case (EvConicTo ctl pt)
  then show ?thesis using assms
    by (auto simp add: ConicToFunc_def control_unused_append_last control_unused_def
        split: if_splits)
next
  case (EvCubicTo c1 c2 pt)
  then show ?thesis using assms by (simp add: CubicToFunc_def)
qed

lemma Outline_Decompose_controls_zero:
  "Outline_Decompose es path = Returned status path' \<Longrightarrow> controls_zero path
   \<Longrightarrow> controls_zero path'"
proof (induction es arbitrary: path)
  case Nil
  then show ?case by simp
next
  case (Cons e es)
  then show ?case
    by (auto split: outcome.splits if_splits dest: invoke_controls_zero)
qed

lemma controls_zero_iff:
  "controls_zero path \<longleftrightarrow>
   (\<forall>c \<in> set path. \<forall>s \<in> set c.
      type s = MOVE_TO \<or> type s = LINE_TO \<longrightarrow> control s = \<lparr>x = 0, y = 0\<rparr>)"
proof -
  have "control_unused s \<longleftrightarrow>
        (type s = MOVE_TO \<or> type s = LINE_TO \<longrightarrow> control s = \<lparr>x = 0, y = 0\<rparr>)" for s
    by (cases "type s") (simp_all add: control_unused_def zero_point_def)
  then show ?thesis by (simp add: controls_zero_def list_all_iff)
qed

lemma print_segment_replace:
  "print_segment os (replace_unused_control f s) = print_segment os s"
  by (cases "type s") (simp_all add: print_segment_def replace_unused_control_def del: foldl_Cons)

lemma print_segments_replace:
  "foldl print_segment os (map (replace_unused_control f) c) = foldl print_segment os c"
  by (induction c arbitrary: os) (simp_all add: print_segment_replace)

lemma print_contours_replace:
  "print_contours i (map (map (replace_unused_control f)) path) os = print_contours i path os"
proof (induction i path os rule: print_contours.induct)
  case (1 i path os)
  let ?m = "map (map (replace_unused_control f)) path"
  show ?case
  proof (cases "i < length path")
    case False
    then show ?thesis by (simp add: print_contours.simps [of i])
  next
    case True
    define b where "b = foldl print_segment
        (foldl put os [Text ''   Contour #'', SetW 2, SizeValue (i + 1), Text [CHR 0x0A]])
        (path ! i)"
    have l: "print_contours i ?m os = print_contours (i + 1) ?m b"
      using True
      by (subst print_contours.simps) (simp add: b_def print_segments_replace del: foldl_Cons)
    have r: "print_contours i path os = print_contours (i + 1) path b"
      using True by (subst print_contours.simps) (simp add: b_def del: foldl_Cons)
    have "print_contours (i + 1) ?m b = print_contours (i + 1) path b"
      unfolding b_def by (rule "1.IH" [OF True])
    with l r show ?thesis by simp
  qed
qed

text \<open>
  C7. A walk over events that obey the protocol returns, and in the path that any
  walk from the empty accumulator returns, every MOVE_TO and LINE_TO segment has the
  control point (0, 0). Whatever is put in place of the control points of the MOVE_TO
  and LINE_TO segments of a path, \<open>PrintGlyphPath\<close> leaves the stream in the same
  state, so it has written the same text.
\<close>

theorem straight_segments_control:
  "(respects_protocol es \<longrightarrow> (\<exists>path. Outline_Decompose es [] = Returned 0 path)) \<and>
   (\<forall>status path. Outline_Decompose es [] = Returned status path \<longrightarrow>
      (\<forall>c \<in> set path. \<forall>s \<in> set c.
         type s = MOVE_TO \<or> type s = LINE_TO \<longrightarrow> control s = \<lparr>x = 0, y = 0\<rparr>)) \<and>
   PrintGlyphPath (map (map (replace_unused_control f)) gp) os = PrintGlyphPath gp os"
proof (intro conjI allI impI)
  show "respects_protocol es \<Longrightarrow> \<exists>path. Outline_Decompose es [] = Returned 0 path"
    by (rule protocol_returns)
next
  fix status path
  assume "Outline_Decompose es [] = Returned status path"
  moreover have "controls_zero []" by (simp add: controls_zero_def)
  ultimately have "controls_zero path" by (rule Outline_Decompose_controls_zero)
  then show "\<forall>c \<in> set path. \<forall>s \<in> set c.
         type s = MOVE_TO \<or> type s = LINE_TO \<longrightarrow> control s = \<lparr>x = 0, y = 0\<rparr>"
    by (simp add: controls_zero_iff)
next
  show "PrintGlyphPath (map (map (replace_unused_control f)) gp) os = PrintGlyphPath gp os"
    by (simp add: PrintGlyphPath_def print_contours_replace)
qed

theorem straight_segments_control_witness:
  "respects_protocol
     [EvMoveTo \<lparr>x = 1, y = 2\<rparr>, EvLineTo \<lparr>x = 3, y = 4\<rparr>,
      EvConicTo \<lparr>x = 5, y = 6\<rparr> \<lparr>x = 7, y = 8\<rparr>] \<and>
   Outline_Decompose
     [EvMoveTo \<lparr>x = 1, y = 2\<rparr>, EvLineTo \<lparr>x = 3, y = 4\<rparr>,
      EvConicTo \<lparr>x = 5, y = 6\<rparr> \<lparr>x = 7, y = 8\<rparr>] [] =
     Returned 0
       [[\<lparr>type = MOVE_TO, to = \<lparr>x = 1, y = 2\<rparr>, control = \<lparr>x = 0, y = 0\<rparr>\<rparr>,
         \<lparr>type = LINE_TO, to = \<lparr>x = 3, y = 4\<rparr>, control = \<lparr>x = 0, y = 0\<rparr>\<rparr>,
         \<lparr>type = CONIC_TO, to = \<lparr>x = 7, y = 8\<rparr>, control = \<lparr>x = 5, y = 6\<rparr>\<rparr>]] \<and>
   list_all (list_all (\<lambda>s. type s = MOVE_TO \<or> type s = LINE_TO \<longrightarrow>
                           control s = \<lparr>x = 0, y = 0\<rparr>))
     [[\<lparr>type = MOVE_TO, to = \<lparr>x = 1, y = 2\<rparr>, control = \<lparr>x = 0, y = 0\<rparr>\<rparr>,
       \<lparr>type = LINE_TO, to = \<lparr>x = 3, y = 4\<rparr>, control = \<lparr>x = 0, y = 0\<rparr>\<rparr>,
       \<lparr>type = CONIC_TO, to = \<lparr>x = 7, y = 8\<rparr>, control = \<lparr>x = 5, y = 6\<rparr>\<rparr>]] \<and>
   PrintGlyphPath
     [[\<lparr>type = MOVE_TO, to = \<lparr>x = 1, y = 2\<rparr>, control = \<lparr>x = 9, y = 9\<rparr>\<rparr>]] fresh_stream =
   PrintGlyphPath
     [[\<lparr>type = MOVE_TO, to = \<lparr>x = 1, y = 2\<rparr>, control = \<lparr>x = 0, y = 0\<rparr>\<rparr>]] fresh_stream"
proof -
  let ?es = "[EvMoveTo \<lparr>x = 1, y = 2\<rparr>, EvLineTo \<lparr>x = 3, y = 4\<rparr>,
      EvConicTo \<lparr>x = 5, y = 6\<rparr> \<lparr>x = 7, y = 8\<rparr>]"
  let ?p = "[[\<lparr>type = MOVE_TO, to = \<lparr>x = 1, y = 2\<rparr>, control = \<lparr>x = 0, y = 0\<rparr>\<rparr>,
         \<lparr>type = LINE_TO, to = \<lparr>x = 3, y = 4\<rparr>, control = \<lparr>x = 0, y = 0\<rparr>\<rparr>,
         \<lparr>type = CONIC_TO, to = \<lparr>x = 7, y = 8\<rparr>, control = \<lparr>x = 5, y = 6\<rparr>\<rparr>]]"
  let ?gp = "[[\<lparr>type = MOVE_TO, to = \<lparr>x = 1, y = 2\<rparr>, control = \<lparr>x = 0, y = 0\<rparr>\<rparr>]]"
  note t = straight_segments_control [of ?es "\<lambda>s. \<lparr>x = 9, y = 9\<rparr>" ?gp fresh_stream]
  have h: "respects_protocol ?es" by simp
  have d: "Outline_Decompose ?es [] = Returned 0 ?p"
    by (simp add: MoveToFunc_def LineToFunc_def ConicToFunc_def)
  from t d have "\<forall>c \<in> set ?p. \<forall>s \<in> set c.
      type s = MOVE_TO \<or> type s = LINE_TO \<longrightarrow> control s = \<lparr>x = 0, y = 0\<rparr>"
    by blast
  then have inv: "list_all (list_all (\<lambda>s. type s = MOVE_TO \<or> type s = LINE_TO \<longrightarrow>
                           control s = \<lparr>x = 0, y = 0\<rparr>)) ?p"
    unfolding list_all_iff .
  from t have "PrintGlyphPath (map (map (replace_unused_control (\<lambda>s. \<lparr>x = 9, y = 9\<rparr>))) ?gp)
                 fresh_stream = PrintGlyphPath ?gp fresh_stream"
    by blast
  then have pr: "PrintGlyphPath
     [[\<lparr>type = MOVE_TO, to = \<lparr>x = 1, y = 2\<rparr>, control = \<lparr>x = 9, y = 9\<rparr>\<rparr>]] fresh_stream =
     PrintGlyphPath ?gp fresh_stream"
    by (simp add: replace_unused_control_def)
  from h d inv pr show ?thesis by blast
qed

section \<open>Exit status and output of the program\<close>

lemma callbacks_status_zero:
  "Outline_Decompose es path = Returned status path' \<Longrightarrow> status = 0"
proof (induction es arbitrary: path)
  case Nil
  then show ?case by simp
next
  case (Cons e es)
  have "\<not> fails_fast (invoke e path)"
    by (cases e) (simp_all add: MoveToFunc_eq LineToFunc_def ConicToFunc_def CubicToFunc_def)
  with Cons show ?case
    by (auto split: outcome.splits if_splits)
qed

lemma main_usage:
  "length args \<noteq> 2 \<Longrightarrow> main argv0 args ft = Exit 1 [] (usage_message argv0)"
  by (simp add: main_def)

lemma main_walk:
  assumes "length args = 2"
    and "Init_FreeType ft = 0"
    and "New_Face ft (args ! 0) = 0"
    and "glyph_of args ft \<noteq> 0"
    and "Load_Glyph ft (args ! 0) (glyph_of args ft) = 0"
    and "glyph_is_outline ft (args ! 0) (glyph_of args ft)"
    and "Outline_Decompose (delivered_events args ft) [] = Returned 0 path"
  shows "\<exists>err. main argv0 args ft =
           (if snd (outline_walk ft (args ! 0) (glyph_of args ft)) \<noteq> 0
            then Exit 1 [] err
            else Exit 0
                   (buf (PrintGlyphPath path
                      (foldl put fresh_stream
                         [Text (''// Successfully extracted vector data for character '' @
                                [CHR 0x27]),
                          Character (first_byte (args ! 1)),
                          Text ([CHR 0x27] @ '' from ''), Text (args ! 0),
                          Text (''.'' @ [CHR 0x0A])]))) [])"
proof -
  obtain events engine_status where
    w: "outline_walk ft (args ! 0) (glyph_of args ft) = (events, engine_status)"
    by (cases "outline_walk ft (args ! 0) (glyph_of args ft)")
  have d: "Outline_Decompose events [] = Returned 0 path"
    using assms(7) w by (simp add: delivered_events_def)
  have g: "Get_Char_Index ft (args ! 0) (ulong_of_char (first_byte (args ! 1))) = glyph_of args ft"
    by (simp add: glyph_of_def)
  show ?thesis
    unfolding main_def Let_def g
    using assms(1-6) w d
    by (simp add: FT_Err_Unknown_File_Format_def del: foldl_Cons)
qed

text \<open>
  C4. When the walk, if the run gets that far, delivers events that obey the protocol,
  the program exits with status 0 if no stage fails and with status 1 if any stage
  fails (argument count, engine initialisation, unsupported font format, font open,
  glyph not found, glyph load, glyph not an outline, decomposition), and in the
  latter case it has written nothing to standard output.
\<close>

theorem main_exit_status:
  assumes "reaches_walk args ft \<longrightarrow> respects_protocol (delivered_events args ft)"
  shows "\<exists>out err. main argv0 args ft = Exit (if failure_of args ft = None then 0 else 1) out err \<and>
           (failure_of args ft \<noteq> None \<longrightarrow> out = [])"
proof (cases "reaches_walk args ft")
  case False
  then have f: "failure_of args ft \<noteq> None" "failure_of args ft \<noteq> Some DecompositionError"
    by (simp_all add: reaches_walk_def)
  have g: "Get_Char_Index ft (args ! 0) (ulong_of_char (first_byte (args ! 1))) = glyph_of args ft"
    by (simp add: glyph_of_def)
  have "\<exists>err. main argv0 args ft = Exit 1 [] err"
    using f unfolding main_def Let_def g failure_of_def
    by (simp del: foldl_Cons split: if_splits)
  with f(1) show ?thesis by auto
next
  case True
  then have c: "length args = 2" "Init_FreeType ft = 0" "New_Face ft (args ! 0) = 0"
    "glyph_of args ft \<noteq> 0" "Load_Glyph ft (args ! 0) (glyph_of args ft) = 0"
    "glyph_is_outline ft (args ! 0) (glyph_of args ft)"
    by (simp_all add: reaches_walk_def failure_of_def split: if_splits)
  from True assms obtain path where
    p: "Outline_Decompose (delivered_events args ft) [] = Returned 0 path"
    using protocol_returns by blast
  have n: "failure_of args ft = None \<longleftrightarrow> snd (outline_walk ft (args ! 0) (glyph_of args ft)) = 0"
    using c by (simp add: failure_of_def FT_Err_Unknown_File_Format_def)
  from main_walk [OF c p, of argv0] show ?thesis
    using n by (auto split: if_splits)
qed

theorem main_exit_status_witness:
  "reaches_walk [''font.ttf'', ''AB''] sample_engine \<and>
   respects_protocol (delivered_events [''font.ttf'', ''AB''] sample_engine) \<and>
   failure_of [''font.ttf'', ''AB''] sample_engine = None \<and>
   (\<exists>out err. main ''get_char'' [''font.ttf'', ''AB''] sample_engine = Exit 0 out err)"
proof -
  have g: "glyph_of [''font.ttf'', ''AB''] sample_engine = 36"
    by (simp add: glyph_of_def sample_engine_def first_byte_def ulong_of_char_def)
  have h: "respects_protocol (delivered_events [''font.ttf'', ''AB''] sample_engine)"
    by (simp add: delivered_events_def sample_engine_def)
  have f: "failure_of [''font.ttf'', ''AB''] sample_engine = None"
    unfolding failure_of_def g
    by (simp add: sample_engine_def FT_Err_Unknown_File_Format_def)
  have r: "reaches_walk [''font.ttf'', ''AB''] sample_engine"
    by (simp add: reaches_walk_def f)
  from main_exit_status [of "[''font.ttf'', ''AB'']" sample_engine "''get_char''"] h f r
  show ?thesis by simp
qed

lemma first_byte_Cons: "first_byte (c # rest) = c"
  by (simp add: first_byte_def)

lemma error_is_not_usage:
  "buf (foldl put fresh_stream (Text (CHR ''E'' # s) # items)) \<noteq> usage_message argv0"
proof -
  have a: "\<And>os. buf os \<noteq> [] \<Longrightarrow> hd (buf (put os i)) = hd (buf os) \<and> buf (put os i) \<noteq> []" for i
    by (cases i) simp_all
  have b: "\<And>os. buf os \<noteq> [] \<Longrightarrow> hd (buf (foldl put os is)) = hd (buf os)" for "is"
  proof (induction "is")
    case Nil
    then show ?case by simp
  next
    case (Cons i "is")
    from a [OF Cons.prems, of i] Cons.IH [of "put os i"] show ?case by simp
  qed
  have "hd (buf (foldl put fresh_stream (Text (CHR ''E'' # s) # items))) = CHR ''E''"
    using b [of "put fresh_stream (Text (CHR ''E'' # s))" items]
    by (simp add: fresh_stream_def)
  moreover have "hd (usage_message argv0) = CHR ''U''"
    by (simp add: usage_message_def fresh_stream_def)
  ultimately show ?thesis by auto
qed

lemma PrintGlyphPath_settled:
  "settled os \<Longrightarrow> buf (PrintGlyphPath path os) = buf os @ path_text path"
proof -
  assume s: "settled os"
  then have "settled (put os (Text (''// Extracted Glyph Path:'' @ [CHR 0x0A])))"
    by (simp add: settled_def)
  from print_contours_lines [OF this, of 0 path] s show ?thesis
    by (simp add: PrintGlyphPath_def path_text_def settled_def)
qed

lemma pad_number_zero: "pad_number adjust_unset 0 (sign_of v) (dec_digits (nat \<bar>v\<bar>)) = decimal v"
  by (simp add: pad_number_def fill_def sign_digits_decimal)

lemma main_glyph_not_found:
  assumes "Init_FreeType ft = 0" and "New_Face ft font_path = 0"
    and "glyph_for ft font_path c = 0"
  shows "main argv0 [font_path, c # rest] ft =
           Exit 1 []
             (''Error: Glyph not found for character '' @ [CHR 0x27, c, CHR 0x27] @ ''.'' @
              [CHR 0x0A])"
  using assms
  by (simp add: main_def first_byte_Cons glyph_for_def FT_Err_Unknown_File_Format_def
      fresh_stream_def)

lemma main_load_failure:
  assumes "Init_FreeType ft = 0" and "New_Face ft font_path = 0"
    and "glyph_for ft font_path c \<noteq> 0"
    and "Load_Glyph ft font_path (glyph_for ft font_path c) \<noteq> 0"
  shows "main argv0 [font_path, c # rest] ft =
           Exit 1 []
             (''Error: Could not load glyph. Code: '' @
              decimal (Load_Glyph ft font_path (glyph_for ft font_path c)) @ [CHR 0x0A])"
  using assms
  by (simp add: main_def first_byte_Cons glyph_for_def FT_Err_Unknown_File_Format_def
      fresh_stream_def pad_number_zero Let_def)

lemma main_success:
  assumes "Init_FreeType ft = 0" and "New_Face ft font_path = 0"
    and "glyph_for ft font_path c \<noteq> 0"
    and "Load_Glyph ft font_path (glyph_for ft font_path c) = 0"
    and "glyph_is_outline ft font_path (glyph_for ft font_path c)"
    and "outline_walk ft font_path (glyph_for ft font_path c) = (es, 0)"
    and "Outline_Decompose es [] = Returned 0 path"
  shows "main argv0 [font_path, c # rest] ft =
           Exit 0
             (''// Successfully extracted vector data for character '' @
              [CHR 0x27, c, CHR 0x27] @ '' from '' @ font_path @ ''.'' @ [CHR 0x0A] @
              path_text path) []"
proof -
  let ?os = "foldl put fresh_stream
               [Text (''// Successfully extracted vector data for character '' @ [CHR 0x27]),
                Character c, Text ([CHR 0x27] @ '' from ''), Text font_path,
                Text (''.'' @ [CHR 0x0A])]"
  have s: "settled ?os" by (simp add: settled_def fresh_stream_def)
  have b: "buf ?os = ''// Successfully extracted vector data for character '' @
              [CHR 0x27, c, CHR 0x27] @ '' from '' @ font_path @ ''.'' @ [CHR 0x0A]"
    by (simp add: fresh_stream_def)
  have "main argv0 [font_path, c # rest] ft = Exit 0 (buf (PrintGlyphPath path ?os)) []"
    using assms
    by (simp add: main_def first_byte_Cons glyph_for_def FT_Err_Unknown_File_Format_def
        Let_def del: foldl_Cons)
  then show ?thesis
    unfolding PrintGlyphPath_settled [OF s] b by simp
qed

lemma main_lookup_only_at_first_byte:
  "main argv0 [font_path, c # rest] ft =
   main argv0 [font_path, c # rest]
     (ft\<lparr>Get_Char_Index := \<lambda>font code. glyph_for ft font_path c\<rparr>)"
  by (simp add: main_def first_byte_Cons glyph_for_def Let_def del: foldl_Cons)

text \<open>
  C10. With a second argument of one or more bytes, the run is the run with that
  argument cut down to its first byte, it is not the usage error, and the character
  looked up is the first byte: the run depends on the engine's character map only
  through the glyph index of that byte in the font given; once the engine and the
  font have opened, the run reports that byte as not found when its index is 0,
  otherwise loads the glyph of that index and reports the failure of the load, and
  on success names that byte in the first line of the output before the path.
\<close>

theorem only_first_byte_is_used:
  "main argv0 [font_path, c # rest] ft = main argv0 [font_path, [c]] ft \<and>
   main argv0 [font_path, c # rest] ft \<noteq> Exit 1 [] (usage_message argv0) \<and>
   main argv0 [font_path, c # rest] ft =
     main argv0 [font_path, c # rest]
       (ft\<lparr>Get_Char_Index := \<lambda>font code. glyph_for ft font_path c\<rparr>) \<and>
   (Init_FreeType ft = 0 \<and> New_Face ft font_path = 0 \<longrightarrow>
      (glyph_for ft font_path c = 0 \<longrightarrow>
         main argv0 [font_path, c # rest] ft =
           Exit 1 []
             (''Error: Glyph not found for character '' @ [CHR 0x27, c, CHR 0x27] @ ''.'' @
              [CHR 0x0A])) \<and>
      (glyph_for ft font_path c \<noteq> 0 \<and>
       Load_Glyph ft font_path (glyph_for ft font_path c) \<noteq> 0 \<longrightarrow>
         main argv0 [font_path, c # rest] ft =
           Exit 1 []
             (''Error: Could not load glyph. Code: '' @
              decimal (Load_Glyph ft font_path (glyph_for ft font_path c)) @ [CHR 0x0A])) \<and>
      (glyph_for ft font_path c \<noteq> 0 \<and>
       Load_Glyph ft font_path (glyph_for ft font_path c) = 0 \<and>
       glyph_is_outline ft font_path (glyph_for ft font_path c) \<and>
       outline_walk ft font_path (glyph_for ft font_path c) = (es, 0) \<and>
       Outline_Decompose es [] = Returned 0 path \<longrightarrow>
         main argv0 [font_path, c # rest] ft =
           Exit 0
             (''// Successfully extracted vector data for character '' @
              [CHR 0x27, c, CHR 0x27] @ '' from '' @ font_path @ ''.'' @ [CHR 0x0A] @
              path_text path) []))"
proof (intro conjI impI)
  show "main argv0 [font_path, c # rest] ft = main argv0 [font_path, [c]] ft"
    by (simp add: main_def first_byte_Cons del: foldl_Cons)
  show "main argv0 [font_path, c # rest] ft \<noteq> Exit 1 [] (usage_message argv0)"
    unfolding main_def Let_def
    by (simp add: error_is_not_usage del: foldl_Cons split: prod.splits outcome.splits)
  show "main argv0 [font_path, c # rest] ft =
     main argv0 [font_path, c # rest]
       (ft\<lparr>Get_Char_Index := \<lambda>font code. glyph_for ft font_path c\<rparr>)"
    by (rule main_lookup_only_at_first_byte)
next
  assume "Init_FreeType ft = 0 \<and> New_Face ft font_path = 0" "glyph_for ft font_path c = 0"
  then show "main argv0 [font_path, c # rest] ft =
           Exit 1 []
             (''Error: Glyph not found for character '' @ [CHR 0x27, c, CHR 0x27] @ ''.'' @
              [CHR 0x0A])"
    by (simp add: main_glyph_not_found)
next
  assume "Init_FreeType ft = 0 \<and> New_Face ft font_path = 0"
    "glyph_for ft font_path c \<noteq> 0 \<and>
     Load_Glyph ft font_path (glyph_for ft font_path c) \<noteq> 0"
  then show "main argv0 [font_path, c # rest] ft =
           Exit 1 []
             (''Error: Could not load glyph. Code: '' @
              decimal (Load_Glyph ft font_path (glyph_for ft font_path c)) @ [CHR 0x0A])"
    by (simp add: main_load_failure)
next
  assume "Init_FreeType ft = 0 \<and> New_Face ft font_path = 0"
    "glyph_for ft font_path c \<noteq> 0 \<and>
       Load_Glyph ft font_path (glyph_for ft font_path c) = 0 \<and>
       glyph_is_outline ft font_path (glyph_for ft font_path c) \<and>
       outline_walk ft font_path (glyph_for ft font_path c) = (es, 0) \<and>
       Outline_Decompose es [] = Returned 0 path"
  then show "main argv0 [font_path, c # rest] ft =
           Exit 0
             (''// Successfully extracted vector data for character '' @
              [CHR 0x27, c, CHR 0x27] @ '' from '' @ font_path @ ''.'' @ [CHR 0x0A] @
              path_text path) []"
    using main_success [of ft font_path c es path argv0 rest] by blast
qed

theorem only_first_byte_is_used_witness:
  "Init_FreeType sample_engine = 0 \<and> New_Face sample_engine ''font.ttf'' = 0 \<and>
   glyph_for sample_engine ''font.ttf'' (CHR ''Z'') = 0 \<and>
   main ''get_char'' [''font.ttf'', ''ZB''] sample_engine =
     Exit 1 [] (''Error: Glyph not found for character '' @ [CHR 0x27] @ ''Z'' @ [CHR 0x27] @
                ''.'' @ [CHR 0x0A]) \<and>
   Init_FreeType failing_load_engine = 0 \<and> New_Face failing_load_engine ''font.ttf'' = 0 \<and>
   glyph_for failing_load_engine ''font.ttf'' (CHR ''A'') = 36 \<and>
   Load_Glyph failing_load_engine ''font.ttf'' 36 = 7 \<and>
   main ''get_char'' [''font.ttf'', ''AB''] failing_load_engine =
     Exit 1 [] (''Error: Could not load glyph. Code: 7'' @ [CHR 0x0A]) \<and>
   glyph_for sample_engine ''font.ttf'' (CHR ''A'') = 36 \<and>
   Load_Glyph sample_engine ''font.ttf'' 36 = 0 \<and>
   glyph_is_outline sample_engine ''font.ttf'' 36 \<and>
   outline_walk sample_engine ''font.ttf'' 36 =
     ([EvMoveTo \<lparr>x = 0, y = 0\<rparr>, EvLineTo \<lparr>x = 10, y = 0\<rparr>], 0) \<and>
   Outline_Decompose [EvMoveTo \<lparr>x = 0, y = 0\<rparr>, EvLineTo \<lparr>x = 10, y = 0\<rparr>] [] =
     Returned 0 [[\<lparr>type = MOVE_TO, to = \<lparr>x = 0, y = 0\<rparr>, control = \<lparr>x = 0, y = 0\<rparr>\<rparr>,
                  \<lparr>type = LINE_TO, to = \<lparr>x = 10, y = 0\<rparr>, control = \<lparr>x = 0, y = 0\<rparr>\<rparr>]] \<and>
   main ''get_char'' [''font.ttf'', ''AB''] sample_engine =
     Exit 0
       (''// Successfully extracted vector data for character '' @ [CHR 0x27] @ ''A'' @
        [CHR 0x27] @ '' from font.ttf.'' @ [CHR 0x0A] @
        ''// Extracted Glyph Path:'' @ [CHR 0x0A] @
        ''   Contour # 1'' @ [CHR 0x0A] @
        ''      MoveTo (    0,     0)'' @ [CHR 0x0A] @
        ''      LineTo (   10,     0)'' @ [CHR 0x0A]) []"
proof -
  let ?es = "[EvMoveTo \<lparr>x = 0, y = 0\<rparr>, EvLineTo \<lparr>x = 10, y = 0\<rparr>]"
  let ?p = "[[\<lparr>type = MOVE_TO, to = \<lparr>x = 0, y = 0\<rparr>, control = \<lparr>x = 0, y = 0\<rparr>\<rparr>,
              \<lparr>type = LINE_TO, to = \<lparr>x = 10, y = 0\<rparr>, control = \<lparr>x = 0, y = 0\<rparr>\<rparr>]]"
  have s: "Init_FreeType sample_engine = 0" "New_Face sample_engine ''font.ttf'' = 0"
    "glyph_for sample_engine ''font.ttf'' (CHR ''Z'') = 0"
    "glyph_for sample_engine ''font.ttf'' (CHR ''A'') = 36"
    "Load_Glyph sample_engine ''font.ttf'' 36 = 0"
    "glyph_is_outline sample_engine ''font.ttf'' 36"
    "outline_walk sample_engine ''font.ttf'' 36 = (?es, 0)"
    by (simp_all add: sample_engine_def glyph_for_def ulong_of_char_def)
  have f: "Init_FreeType failing_load_engine = 0" "New_Face failing_load_engine ''font.ttf'' = 0"
    "glyph_for failing_load_engine ''font.ttf'' (CHR ''A'') = 36"
    "Load_Glyph failing_load_engine ''font.ttf'' 36 = 7"
    by (simp_all add: failing_load_engine_def sample_engine_def glyph_for_def ulong_of_char_def)
  have d: "Outline_Decompose ?es [] = Returned 0 ?p"
    by (simp add: MoveToFunc_def LineToFunc_def)
  have dd: "dec_digits 0 = ''0''" "dec_digits (Suc 0) = ''1''" "dec_digits 7 = ''7''"
    "dec_digits 10 = ''10''"
    by (simp_all add: dec_digits.simps digit_char_def)
  have dm: "decimal 0 = ''0''" "decimal 7 = ''7''" "decimal 10 = ''10''"
    by (simp_all add: decimal_def dd)
  have ra: "right_aligned 5 ''0'' = ''    0''" "right_aligned 5 ''10'' = ''   10''"
    "right_aligned 2 ''1'' = '' 1''"
    by (simp_all add: right_aligned_def numeral_eq_Suc)
  have e: "path_text ?p =
     ''// Extracted Glyph Path:'' @ [CHR 0x0A] @
     ''   Contour # 1'' @ [CHR 0x0A] @
     ''      MoveTo (    0,     0)'' @ [CHR 0x0A] @
     ''      LineTo (   10,     0)'' @ [CHR 0x0A]"
    by (simp add: path_text_def contour_lines_def segment_line_def point_text_def dm dd ra)
  have "main ''get_char'' [''font.ttf'', ''ZB''] sample_engine =
     Exit 1 [] (''Error: Glyph not found for character '' @ [CHR 0x27, CHR ''Z'', CHR 0x27] @
                ''.'' @ [CHR 0x0A])"
    using only_first_byte_is_used [of "''get_char''" "''font.ttf''" "CHR ''Z''" "''B''" sample_engine]
      s(1-3) by blast
  then have w1: "main ''get_char'' [''font.ttf'', ''ZB''] sample_engine =
     Exit 1 [] (''Error: Glyph not found for character '' @ [CHR 0x27] @ ''Z'' @ [CHR 0x27] @
                ''.'' @ [CHR 0x0A])"
    by simp
  have n: "glyph_for failing_load_engine ''font.ttf'' (CHR ''A'') \<noteq> 0"
    "Load_Glyph failing_load_engine ''font.ttf''
       (glyph_for failing_load_engine ''font.ttf'' (CHR ''A'')) \<noteq> 0"
    "Load_Glyph failing_load_engine ''font.ttf''
       (glyph_for failing_load_engine ''font.ttf'' (CHR ''A'')) = 7"
    by (simp_all add: f)
  have "main ''get_char'' [''font.ttf'', ''AB''] failing_load_engine =
     Exit 1 [] (''Error: Could not load glyph. Code: '' @
        decimal (Load_Glyph failing_load_engine ''font.ttf''
                   (glyph_for failing_load_engine ''font.ttf'' (CHR ''A''))) @ [CHR 0x0A])"
    using only_first_byte_is_used
            [of "''get_char''" "''font.ttf''" "CHR ''A''" "''B''" failing_load_engine]
      f(1,2) n(1,2) by blast
  then have w2: "main ''get_char'' [''font.ttf'', ''AB''] failing_load_engine =
     Exit 1 [] (''Error: Could not load glyph. Code: 7'' @ [CHR 0x0A])"
    by (simp add: n(3) dm)
  have g: "glyph_for sample_engine ''font.ttf'' (CHR ''A'') \<noteq> 0"
    "Load_Glyph sample_engine ''font.ttf'' (glyph_for sample_engine ''font.ttf'' (CHR ''A'')) = 0"
    "glyph_is_outline sample_engine ''font.ttf'' (glyph_for sample_engine ''font.ttf'' (CHR ''A''))"
    "outline_walk sample_engine ''font.ttf'' (glyph_for sample_engine ''font.ttf'' (CHR ''A'')) =
       (?es, 0)"
    by (simp_all add: s)
  have "main ''get_char'' [''font.ttf'', ''AB''] sample_engine =
     Exit 0
       (''// Successfully extracted vector data for character '' @
        [CHR 0x27, CHR ''A'', CHR 0x27] @ '' from '' @ ''font.ttf'' @ ''.'' @ [CHR 0x0A] @
        path_text ?p) []"
    using only_first_byte_is_used
            [of "''get_char''" "''font.ttf''" "CHR ''A''" "''B''" sample_engine ?es ?p]
      s(1,2) g d by blast
  then have w3: "main ''get_char'' [''font.ttf'', ''AB''] sample_engine =
     Exit 0
       (''// Successfully extracted vector data for character '' @ [CHR 0x27] @ ''A'' @
        [CHR 0x27] @ '' from font.ttf.'' @ [CHR 0x0A] @
        ''// Extracted Glyph Path:'' @ [CHR 0x0A] @
        ''   Contour # 1'' @ [CHR 0x0A] @
        ''      MoveTo (    0,     0)'' @ [CHR 0x0A] @
        ''      LineTo (   10,     0)'' @ [CHR 0x0A]) []"
    unfolding e by simp
  show ?thesis
    using s f d w1 w2 w3 by simp
qed

end
